theory Spec2Isabelle
  imports Complex_Main "HOL-Library.AList"
begin

section \<open>Strings of code points\<close>

text \<open>
  A Python \<^verbatim>\<open>str\<close> is a sequence of Unicode code points, so a cell is a list of
  natural numbers.  ASCII literals are written with \<open>str\<close>.
\<close>

type_synonym ustring = "nat list"

definition str :: "string \<Rightarrow> ustring" where
  "str s = map of_char s"

text \<open>\<^verbatim>\<open>cell.lstrip(ch)\<close>, \<^verbatim>\<open>cell.rstrip(ch)\<close> and \<^verbatim>\<open>cell.strip(ch)\<close> for a single character.\<close>

definition lstrip :: "nat \<Rightarrow> ustring \<Rightarrow> ustring" where
  "lstrip ch cell = dropWhile (\<lambda>c. c = ch) cell"

definition rstrip :: "nat \<Rightarrow> ustring \<Rightarrow> ustring" where
  "rstrip ch cell = rev (dropWhile (\<lambda>c. c = ch) (rev cell))"

definition strip :: "nat \<Rightarrow> ustring \<Rightarrow> ustring" where
  "strip ch cell = rstrip ch (lstrip ch cell)"

text \<open>\<^verbatim>\<open>cell.endswith(ch)\<close> for a single character.\<close>

definition endswith :: "ustring \<Rightarrow> nat \<Rightarrow> bool" where
  "endswith cell ch = (case rev cell of [] \<Rightarrow> False | c # _ \<Rightarrow> c = ch)"

text \<open>\<^verbatim>\<open>name.startswith(p)\<close> on pattern names.\<close>

definition startswith :: "string \<Rightarrow> string \<Rightarrow> bool" where
  "startswith name p = (take (length p) name = p)"

text \<open>
  \<^verbatim>\<open>cell.split(sep)\<close> for a single separator character: the list of the pieces between
  the separators, never empty (\<^verbatim>\<open>"".split(" ") == [""]\<close>).
\<close>

fun split :: "ustring \<Rightarrow> nat \<Rightarrow> ustring list" where
  "split [] sep = [[]]"
| "split (c # cs) sep =
     (if c = sep then [] # split cs sep
      else (case split cs sep of [] \<Rightarrow> [[c]] | p # ps \<Rightarrow> (c # p) # ps))"

section \<open>The character database\<close>

text \<open>
  The character classes of the patterns (\<^verbatim>\<open>\d\<close>, \<^verbatim>\<open>\w\<close>, \<^verbatim>\<open>\s\<close>, \<^verbatim>\<open>\p{N}\<close>,
  \<^verbatim>\<open>\p{L}\<close>, \<^verbatim>\<open>\p{Sc}\<close>) and \<^verbatim>\<open>str.lower\<close> consult the Unicode character database,
  which is not part of the repository.  On ASCII the classes are written out; beyond ASCII
  the database is a parameter \<open>u\<close> of every function.
\<close>

record ucd =
  uc_Nd :: "nat \<Rightarrow> bool"
  uc_N :: "nat \<Rightarrow> bool"
  uc_L :: "nat \<Rightarrow> bool"
  uc_Sc :: "nat \<Rightarrow> bool"
  uc_space :: "nat \<Rightarrow> bool"
  uc_word :: "nat \<Rightarrow> bool"
  uc_lower :: "ustring \<Rightarrow> ustring"

definition is_ascii_digit :: "nat \<Rightarrow> bool" where
  "is_ascii_digit c = (48 \<le> c \<and> c \<le> 57)"

definition is_ascii_letter :: "nat \<Rightarrow> bool" where
  "is_ascii_letter c = ((65 \<le> c \<and> c \<le> 90) \<or> (97 \<le> c \<and> c \<le> 122))"

definition cls_digit :: "ucd \<Rightarrow> nat \<Rightarrow> bool" where
  "cls_digit u c = (if c < 128 then is_ascii_digit c else uc_Nd u c)"

definition cls_N :: "ucd \<Rightarrow> nat \<Rightarrow> bool" where
  "cls_N u c = (if c < 128 then is_ascii_digit c else uc_N u c)"

definition cls_L :: "ucd \<Rightarrow> nat \<Rightarrow> bool" where
  "cls_L u c = (if c < 128 then is_ascii_letter c else uc_L u c)"

definition cls_Sc :: "ucd \<Rightarrow> nat \<Rightarrow> bool" where
  "cls_Sc u c = (if c < 128 then c = 36 else uc_Sc u c)"

definition cls_word :: "ucd \<Rightarrow> nat \<Rightarrow> bool" where
  "cls_word u c =
     (if c < 128 then is_ascii_digit c \<or> is_ascii_letter c \<or> c = 95 else uc_word u c)"

text \<open>
  White space: tab to carriage return and the space are white space, the printable ASCII
  characters are not; the information separators 28 to 31 and the code points beyond
  ASCII are left to the database.
\<close>

definition cls_space :: "ucd \<Rightarrow> nat \<Rightarrow> bool" where
  "cls_space u c =
     (if (9 \<le> c \<and> c \<le> 13) \<or> c = 32 then True
      else if (28 \<le> c \<and> c \<le> 31) \<or> 128 \<le> c then uc_space u c
      else False)"

text \<open>\<^verbatim>\<open>cell.lower()\<close>: ASCII strings are lowered letter by letter.\<close>

definition lower :: "ucd \<Rightarrow> ustring \<Rightarrow> ustring" where
  "lower u cell =
     (if list_all (\<lambda>c. c < 128) cell
      then map (\<lambda>c. if 65 \<le> c \<and> c \<le> 90 then c + 32 else c) cell
      else uc_lower u cell)"

text \<open>A database with nothing beyond ASCII, for closed examples on ASCII cells.\<close>

definition ascii_ucd :: ucd where
  "ascii_ucd = \<lparr> uc_Nd = (\<lambda>c. False), uc_N = (\<lambda>c. False), uc_L = (\<lambda>c. False),
     uc_Sc = (\<lambda>c. False), uc_space = (\<lambda>c. False), uc_word = (\<lambda>c. False),
     uc_lower = (\<lambda>s. s) \<rparr>"

section \<open>Regular expressions and the backtracking matcher\<close>

text \<open>
  The members of a character set \<^verbatim>\<open>[...]\<close>: a character, a range, or a class.
\<close>

datatype citem =
    Ch nat
  | Rng nat nat
  | Digit
  | Word
  | Space
  | PropN
  | PropL
  | PropSc

fun citem_mem :: "ucd \<Rightarrow> citem \<Rightarrow> nat \<Rightarrow> bool" where
  "citem_mem u (Ch a) c = (c = a)"
| "citem_mem u (Rng a b) c = (a \<le> c \<and> c \<le> b)"
| "citem_mem u Digit c = cls_digit u c"
| "citem_mem u Word c = cls_word u c"
| "citem_mem u Space c = cls_space u c"
| "citem_mem u PropN c = cls_N u c"
| "citem_mem u PropL c = cls_L u c"
| "citem_mem u PropSc c = cls_Sc u c"

text \<open>
  The constructs the patterns of the catalog use.  \<open>Cap\<close> is a named group, or the
  numbered group that \<^verbatim>\<open>m.group(1)\<close> reads; the other parentheses only group, since
  nothing reads their captures.  \<open>Cond n a b\<close> is \<^verbatim>\<open>(?(n)a|b)\<close>, \<open>Look\<close> is \<^verbatim>\<open>(?=...)\<close>, \<open>Dot\<close> is \<^verbatim>\<open>.\<close>
  (anything but a newline), \<open>Bol\<close> and \<open>Eol\<close> are \<^verbatim>\<open>^\<close> and \<^verbatim>\<open>$\<close>.
\<close>

datatype rx =
    Eps
  | Lit nat
  | Dot
  | Cls "citem list"
  | Seq rx rx
  | Alt rx rx
  | Star rx
  | Cap string rx
  | Cond string rx rx
  | Look rx
  | Bol
  | Eol

text \<open>
  A matcher state: the number of characters consumed, the rest of the subject, and the
  groups captured so far.
\<close>

record mstate =
  pos :: nat
  rest :: ustring
  caps :: "(string \<times> ustring) list"

definition advance :: "mstate \<Rightarrow> mstate" where
  "advance s = s\<lparr> pos := Suc (pos s), rest := tl (rest s) \<rparr>"

definition one_char :: "(nat \<Rightarrow> bool) \<Rightarrow> mstate \<Rightarrow> mstate list" where
  "one_char p s = (case rest s of [] \<Rightarrow> [] | c # _ \<Rightarrow> if p c then [advance s] else [])"

text \<open>
  \<open>run u r s\<close> lists, in the order a backtracking engine tries them, the states in which
  a match of \<open>r\<close> started in \<open>s\<close> can end.  Repetition is greedy; an iteration that
  consumes nothing is not repeated.
\<close>

function run :: "ucd \<Rightarrow> rx \<Rightarrow> mstate \<Rightarrow> mstate list" where
  "run u Eps s = [s]"
| "run u (Lit a) s = one_char (\<lambda>c. c = a) s"
| "run u Dot s = one_char (\<lambda>c. c \<noteq> 10) s"
| "run u (Cls items) s = one_char (\<lambda>c. list_ex (\<lambda>i. citem_mem u i c) items) s"
| "run u (Seq r1 r2) s = concat (map (run u r2) (run u r1 s))"
| "run u (Alt r1 r2) s = run u r1 s @ run u r2 s"
| "run u (Star r) s =
     concat (map (run u (Star r))
       (filter (\<lambda>t. length (rest t) < length (rest s)) (run u r s))) @ [s]"
| "run u (Cap n r) s =
     map (\<lambda>t. t\<lparr> caps := (n, take (pos t - pos s) (rest s)) # caps t \<rparr>) (run u r s)"
| "run u (Cond n r1 r2) s =
     (if map_of (caps s) n \<noteq> None then run u r1 s else run u r2 s)"
| "run u (Look r) s = (case run u r s of [] \<Rightarrow> [] | t # _ \<Rightarrow> [s\<lparr> caps := caps t \<rparr>])"
| "run u Bol s = (if pos s = 0 then [s] else [])"
| "run u Eol s = (if rest s = [] \<or> rest s = [10] then [s] else [])"
  by pat_completeness auto
termination
  by (relation "measures [\<lambda>(u, r, s). size r, \<lambda>(u, r, s). length (rest s)]") auto

text \<open>
  \<^verbatim>\<open>pat.fullmatch(cell)\<close>: the first way, in the engine's order, to match the whole cell;
  \<open>None\<close> when there is none.
\<close>

definition fullmatch :: "ucd \<Rightarrow> rx \<Rightarrow> ustring \<Rightarrow> mstate option" where
  "fullmatch u r cell =
     List.find (\<lambda>t. rest t = []) (run u r \<lparr> pos = 0, rest = cell, caps = [] \<rparr>)"

text \<open>\<^verbatim>\<open>m.group(n)\<close>: the capture of a group, \<open>None\<close> when it took no part in the match.\<close>

definition m_group :: "mstate \<Rightarrow> string \<Rightarrow> ustring option" where
  "m_group m n = map_of (caps m) n"

text \<open>Derived forms: \<^verbatim>\<open>r?\<close>, \<^verbatim>\<open>r+\<close>, \<^verbatim>\<open>r{n}\<close>, \<^verbatim>\<open>r{lo,hi}\<close> and the sequence of a list.\<close>

definition Opt :: "rx \<Rightarrow> rx" where
  "Opt r = Alt r Eps"

definition Plus :: "rx \<Rightarrow> rx" where
  "Plus r = Seq r (Star r)"

fun rx_times :: "nat \<Rightarrow> rx \<Rightarrow> rx" where
  "rx_times 0 r = Eps"
| "rx_times (Suc n) r = Seq r (rx_times n r)"

fun rx_upto :: "nat \<Rightarrow> rx \<Rightarrow> rx" where
  "rx_upto 0 r = Eps"
| "rx_upto (Suc n) r = Opt (Seq r (rx_upto n r))"

definition rep :: "nat \<Rightarrow> nat \<Rightarrow> rx \<Rightarrow> rx" where
  "rep lo hi r = Seq (rx_times lo r) (rx_upto (hi - lo) r)"

fun seqs :: "rx list \<Rightarrow> rx" where
  "seqs [] = Eps"
| "seqs [r] = r"
| "seqs (r # rs) = Seq r (seqs rs)"

fun alts :: "rx list \<Rightarrow> rx" where
  "alts [] = Eps"
| "alts [r] = r"
| "alts (r # rs) = Alt r (alts rs)"

definition lit :: "char \<Rightarrow> rx" where
  "lit c = Lit (of_char c)"

definition ch :: "char \<Rightarrow> citem" where
  "ch c = Ch (of_char c)"

definition rng :: "char \<Rightarrow> char \<Rightarrow> citem" where
  "rng a b = Rng (of_char a) (of_char b)"

section \<open>The pattern catalog\<close>

definition SPECIALS_ALLOWED :: "nat list" where
  "SPECIALS_ALLOWED =
    [ \<comment> \<open>Periods\<close>
      0x002E, 0x06D4, 0x3002, 0xFE52, 0xFF0E, 0xFF61,
      \<comment> \<open>Parentheses\<close>
      0x0028, 0x0029, 0x27EE, 0x27EF, 0xFF08, 0xFF09,
      \<comment> \<open>Question marks\<close>
      0x003F, 0x00BF, 0x037E, 0x055E, 0x061F, 0x1367, 0x1945, 0x2047, 0x2048, 0x2049,
      0x2CFA, 0x2CFB, 0x2E2E, 0xA60F, 0xA6F7, 0xFE16, 0xFE56, 0xFF1F, 69955, 125279,
      \<comment> \<open>Exclamation marks\<close>
      0x0021, 0x00A1, 0x01C3, 0x055C, 0x07F9, 0x109F, 0x1944, 0x203C, 0x2048, 0x2049,
      0xAA77, 0xFE15, 0xFE57, 0xFF01, 125278 ]"

text \<open>Pieces that occur several times in the pattern sources.\<close>

definition digit :: rx where \<comment> \<open>\<^verbatim>\<open>\d\<close>\<close>
  "digit = Cls [Digit]"

definition sign :: rx where \<comment> \<open>\<^verbatim>\<open>[+-]\<close>\<close>
  "sign = Cls [ch CHR ''+'', ch CHR ''-'']"

definition exponent :: rx where \<comment> \<open>\<^verbatim>\<open>[eE][+-]?\d+\<close>\<close>
  "exponent = seqs [Cls [ch CHR ''e'', ch CHR ''E''], Opt sign, Plus digit]"

definition d19 :: rx where \<comment> \<open>\<^verbatim>\<open>[1-9]\<close>\<close>
  "d19 = Cls [rng CHR ''1'' CHR ''9'']"

definition d09 :: rx where \<comment> \<open>\<^verbatim>\<open>[0-9]\<close>\<close>
  "d09 = Cls [rng CHR ''0'' CHR ''9'']"

definition user_chars :: "citem list" where \<comment> \<open>\<^verbatim>\<open>[-;:&=\+\$,\w]\<close>\<close>
  "user_chars = [ch CHR ''-'', ch CHR '';'', ch CHR '':'', ch CHR ''&'', ch CHR ''='',
     ch CHR ''+'', ch CHR ''$'', ch CHR '','', Word]"

definition host_chars :: "citem list" where \<comment> \<open>\<^verbatim>\<open>[A-Za-z0-9.-]\<close>\<close>
  "host_chars = [rng CHR ''A'' CHR ''Z'', rng CHR ''a'' CHR ''z'', rng CHR ''0'' CHR ''9'',
     ch CHR ''.'', ch CHR ''-'']"

definition alnum :: "citem list" where \<comment> \<open>\<^verbatim>\<open>a-zA-Z0-9\<close> inside a set\<close>
  "alnum = [rng CHR ''a'' CHR ''z'', rng CHR ''A'' CHR ''Z'', rng CHR ''0'' CHR ''9'']"

definition token_chars :: "citem list" where
  \<comment> \<open>\<^verbatim>\<open>[\p{N}\p{L}\ ...]\<close> with the escaped \<open>SPECIALS_ALLOWED\<close>\<close>
  "token_chars = [PropN, PropL, ch CHR '' ''] @ map Ch SPECIALS_ALLOWED"

definition hour2 :: rx where \<comment> \<open>\<^verbatim>\<open>(0[0-9]|1[0-9]|2[0-3])\<close>\<close>
  "hour2 = alts [Seq (lit CHR ''0'') d09, Seq (lit CHR ''1'') d09,
     Seq (lit CHR ''2'') (Cls [rng CHR ''0'' CHR ''3''])]"

definition hour1 :: rx where \<comment> \<open>\<^verbatim>\<open>([0-9]|1[0-9]|2[0-3])\<close>\<close>
  "hour1 = alts [d09, Seq (lit CHR ''1'') d09,
     Seq (lit CHR ''2'') (Cls [rng CHR ''0'' CHR ''3''])]"

definition minute :: rx where \<comment> \<open>\<^verbatim>\<open>([0-5][0-9])\<close>\<close>
  "minute = Seq (Cls [rng CHR ''0'' CHR ''5'']) d09"

text \<open>
  The patterns of \<^verbatim>\<open>PATTERNS\<close>, each the parse of its source string.  In the look-ahead
  of \<^verbatim>\<open>number_1\<close> the set \<^verbatim>\<open>[+-\.\d]\<close> holds the range from \<^verbatim>\<open>+\<close> to \<^verbatim>\<open>.\<close> and the
  digits.
\<close>

definition pat_number_1 :: rx where
  "pat_number_1 = seqs
    [Look (Cls [rng CHR ''+'' CHR ''.'', Digit]),
     Opt sign,
     Opt (Alt (lit CHR ''0'') (Seq d19 (Star digit))),
     Alt
       (Seq (Opt (Cap ''dot'' (lit CHR ''.'')))
          (Cond ''dot''
             (Cap ''yes_dot'' (Seq (Star digit) (Opt (Seq (Plus digit) exponent))))
             (Cap ''no_dot'' (Opt exponent))))
       (Seq (Opt (Cap ''comma'' (lit CHR '','')))
          (Cond ''comma''
             (Cap ''yes_comma'' (Seq (Plus digit) (Opt (Seq (Plus digit) exponent))))
             (Cap ''no_comma'' (Opt exponent))))]"

definition pat_number_2 :: rx where
  "pat_number_2 = seqs
    [Opt sign,
     Alt d19 (Seq d19 (rep 0 2 digit)),
     Plus (Seq (lit CHR '','') (rx_times 3 digit)),
     lit CHR ''.'',
     Star digit]"

definition pat_number_3 :: rx where
  "pat_number_3 = seqs
    [Opt sign,
     Alt d19 (Seq d19 (rep 0 2 digit)),
     Plus (Seq (lit CHR ''.'') (rx_times 3 digit)),
     lit CHR '','',
     Star digit]"

definition pat_url :: rx where
  "pat_url = Seq
    (Alt
      (seqs
        [seqs [rep 3 9 (Cls [rng CHR ''A'' CHR ''Z'', rng CHR ''a'' CHR ''z'']),
               lit CHR '':'', Opt (Seq (lit CHR ''/'') (lit CHR ''/''))],
         Opt (Seq (Plus (Cls user_chars)) (lit CHR ''@'')),
         Plus (Cls host_chars)])
      (seqs
        [Alt (seqs [lit CHR ''w'', lit CHR ''w'', lit CHR ''w'', Dot])
             (Seq (Plus (Cls user_chars)) (lit CHR ''@'')),
         Plus (Cls host_chars)]))
    (Opt (seqs
      [Opt (Seq (lit CHR ''/'')
         (Star (Cls [ch CHR ''+'', ch CHR ''~'', ch CHR ''%'', ch CHR ''/'', ch CHR ''.'',
                     Word, ch CHR ''-'', ch CHR ''_'']))),
       Opt (lit CHR ''?''),
       Star (Cls [ch CHR ''-'', ch CHR ''+'', ch CHR ''='', ch CHR ''&'', ch CHR '';'',
                  ch CHR ''%'', ch CHR ''@'', ch CHR ''.'', Word, ch CHR ''_'']),
       Opt (lit CHR ''#''),
       Star (Cls [Word])]))"

definition pat_email :: rx where
  "pat_email = seqs
    [Bol,
     Plus (Cls (alnum @ [ch CHR ''_'', ch CHR ''.'', ch CHR ''+'', ch CHR ''-''])),
     lit CHR ''@'',
     Plus (Cls (alnum @ [ch CHR ''-''])),
     lit CHR ''.'',
     Plus (Cls (alnum @ [ch CHR ''-'', ch CHR ''.''])),
     Eol]"

definition pat_unicode_alphanum :: rx where
  "pat_unicode_alphanum = Alt
     (seqs [Plus (Cls [PropN]), Plus (Cls [PropL]), Star (Cls token_chars)])
     (seqs [Plus (Cls [PropL]), Plus (Cls token_chars)])"

definition pat_time_hhmmss :: rx where
  "pat_time_hhmmss = seqs [hour2, lit CHR '':'', minute, lit CHR '':'', minute]"

definition pat_time_hhmm :: rx where
  "pat_time_hhmm = seqs [hour2, lit CHR '':'', minute]"

definition pat_time_HHMM :: rx where
  "pat_time_HHMM = seqs [hour2, minute]"

definition pat_time_HH :: rx where
  "pat_time_HH = seqs [hour2, minute]"

definition pat_time_hmm :: rx where
  "pat_time_hmm = seqs [hour1, lit CHR '':'', minute]"

definition pat_currency :: rx where
  "pat_currency = seqs [Cls [PropSc], Opt (Cls [Space]), Cap ''1'' (Star Dot)]"

definition pat_unix_path :: rx where
  "pat_unix_path = seqs
    [rep 1 2 (Cls [ch CHR ''/'', ch CHR ''~'']),
     Plus (Seq (Plus (Cls (alnum @ [ch CHR ''.''])))
               (rep 1 2 (Cls [ch CHR ''/'']))),
     Plus (Cls (alnum @ [ch CHR ''.'']))]"

text \<open>The dictionary \<^verbatim>\<open>PATTERNS\<close>, in insertion order.\<close>

type_synonym pdict = "(string \<times> rx) list"

definition PATTERNS :: pdict where
  "PATTERNS =
    [(''number_1'', pat_number_1),
     (''number_2'', pat_number_2),
     (''number_3'', pat_number_3),
     (''url'', pat_url),
     (''email'', pat_email),
     (''unicode_alphanum'', pat_unicode_alphanum),
     (''time_hhmmss'', pat_time_hhmmss),
     (''time_hhmm'', pat_time_hhmm),
     (''time_HHMM'', pat_time_HHMM),
     (''time_HH'', pat_time_HH),
     (''time_hmm'', pat_time_hmm),
     (''currency'', pat_currency),
     (''unix_path'', pat_unix_path)]"

section \<open>The type detector\<close>

datatype error = AttributeError | IndexError | TypeError

record detector =
  patterns :: pdict
  strip_whitespace :: bool

text \<open>\<^verbatim>\<open>"date_%i" % counter\<close>: the decimal digits of the counter.\<close>

fun decimal :: "nat \<Rightarrow> string" where
  "decimal n =
     (if n < 10 then [char_of (48 + n)]
      else decimal (n div 10) @ [char_of (48 + n mod 10)])"

declare decimal.simps [simp del]

definition year2 :: rx where \<comment> \<open>\<^verbatim>\<open>(?:\d{2})\<close>\<close>
  "year2 = rx_times 2 digit"

definition year4 :: rx where \<comment> \<open>\<^verbatim>\<open>(?:[12]\d{3})\<close>\<close>
  "year4 = Seq (Cls [ch CHR ''1'', ch CHR ''2'']) (rx_times 3 digit)"

definition month_leading :: rx where \<comment> \<open>\<^verbatim>\<open>(?:0[1-9]|1[0-2])\<close>\<close>
  "month_leading = Alt (Seq (lit CHR ''0'') d19) (Seq (lit CHR ''1'') (Cls [rng CHR ''0'' CHR ''2'']))"

definition month_sparse :: rx where \<comment> \<open>\<^verbatim>\<open>(?:[1-9]|1[0-2])\<close>\<close>
  "month_sparse = Alt d19 (Seq (lit CHR ''1'') (Cls [rng CHR ''0'' CHR ''2'']))"

definition day_leading :: rx where \<comment> \<open>\<^verbatim>\<open>(?:0[1-9]|[12]\d|3[01])\<close>\<close>
  "day_leading = alts [Seq (lit CHR ''0'') d19, Seq (Cls [ch CHR ''1'', ch CHR ''2'']) digit,
     Seq (lit CHR ''3'') (Cls [ch CHR ''0'', ch CHR ''1''])]"

definition day_sparse :: rx where \<comment> \<open>\<^verbatim>\<open>(?:[1-9]|[12]\d|3[01])\<close>\<close>
  "day_sparse = alts [d19, Seq (Cls [ch CHR ''1'', ch CHR ''2'']) digit,
     Seq (lit CHR ''3'') (Cls [ch CHR ''0'', ch CHR ''1''])]"

definition sep :: rx where \<comment> \<open>\<^verbatim>\<open>[-/\.\ ]\<close>\<close>
  "sep = Cls [ch CHR ''-'', ch CHR ''/'', ch CHR ''.'', ch CHR '' '']"

text \<open>The formats of one round of the loops; the separator of the second loop is empty.\<close>

definition pat_1 :: "rx \<Rightarrow> rx \<Rightarrow> rx \<Rightarrow> rx \<Rightarrow> rx" where
  "pat_1 year month day sp = seqs [year, sp, month, sp, day]"

definition pat_2 :: "rx \<Rightarrow> rx \<Rightarrow> rx \<Rightarrow> rx \<Rightarrow> rx" where
  "pat_2 year month day sp = seqs [day, sp, month, sp, year]"

definition pat_3 :: "rx \<Rightarrow> rx \<Rightarrow> rx \<Rightarrow> rx \<Rightarrow> rx" where
  "pat_3 year month day sp = seqs [month, sp, day, sp, year]"

definition pat_cn :: "rx \<Rightarrow> rx \<Rightarrow> rx \<Rightarrow> rx" where
  "pat_cn year month day = seqs [year, Lit 0x5E74, month, Lit 0x6708, day, Lit 0x65E5]"

definition pat_ko :: "rx \<Rightarrow> rx \<Rightarrow> rx \<Rightarrow> rx" where
  "pat_ko year month day = seqs [year, Lit 0xB144, month, Lit 0xC6D4, day, Lit 0xC77C]"

text \<open>
  The patterns the two loops of \<^verbatim>\<open>_init_date_patterns\<close> store, in order.  In the second
  loop \<^verbatim>\<open>pat_cn\<close> is not assigned again: it still holds the value of the last round of the
  first loop (four-digit year, sparse month, sparse day).
\<close>

definition first_loop :: "rx list" where
  "first_loop =
     concat (map (\<lambda>year.
       concat (map (\<lambda>month.
         concat (map (\<lambda>day.
           [pat_1 year month day sep, pat_2 year month day sep, pat_3 year month day sep,
            pat_cn year month day, pat_ko year month day])
         [day_leading, day_sparse]))
       [month_leading, month_sparse]))
     [year2, year4])"

definition second_loop :: "rx list" where
  "second_loop =
     concat (map (\<lambda>year.
       [pat_1 year month_leading day_leading Eps, pat_2 year month_leading day_leading Eps,
        pat_3 year month_leading day_leading Eps, pat_cn year4 month_sparse day_sparse])
     [year2, year4])"

text \<open>
  \<^verbatim>\<open>self.patterns["date_%i" % counter] = pattern; counter += 1\<close> for each pattern.
\<close>

definition store_dates :: "rx list \<Rightarrow> pdict \<times> nat \<Rightarrow> pdict \<times> nat" where
  "store_dates pats st =
     fold (\<lambda>pattern (ps, counter).
        (AList.update (''date_'' @ decimal counter) pattern ps, counter + 1)) pats st"

definition init_date_patterns :: "pdict \<Rightarrow> pdict" where
  "init_date_patterns ps = fst (store_dates second_loop (store_dates first_loop (ps, 0)))"

text \<open>
  The constructor.  The patterns of the model are already parsed, so \<^verbatim>\<open>_compile_regexes\<close>
  changes nothing.  The constructor writes into the dictionary it shares with \<^verbatim>\<open>PATTERNS\<close>;
  a second construction stores the same patterns under the same names.
\<close>

definition TypeDetector :: "bool \<Rightarrow> detector" where
  "TypeDetector sw = \<lparr> patterns = init_date_patterns PATTERNS, strip_whitespace = sw \<rparr>"

text \<open>The strip that the predicates apply when the flag is set.\<close>

definition stripped :: "detector \<Rightarrow> ustring \<Rightarrow> ustring" where
  "stripped td cell = (if strip_whitespace td then strip 32 cell else cell)"

text \<open>
  \<^verbatim>\<open>_run_regex\<close>.  \<^verbatim>\<open>self.patterns.get(patname, None)\<close> is \<^verbatim>\<open>None\<close> for a name that is not
  in the dictionary, and \<^verbatim>\<open>None.fullmatch\<close> raises.
\<close>

definition run_regex :: "ucd \<Rightarrow> detector \<Rightarrow> ustring \<Rightarrow> string \<Rightarrow> error + bool" where
  "run_regex u td cell patname =
     (let cell = stripped td cell in
      case map_of (patterns td) patname of
        None \<Rightarrow> Inl AttributeError
      | Some pat \<Rightarrow> Inr (fullmatch u pat cell \<noteq> None))"

text \<open>Python's \<^verbatim>\<open>a or b\<close> and \<^verbatim>\<open>a and b\<close> on results: \<open>b\<close> is evaluated only when needed.\<close>

definition or_else :: "error + bool \<Rightarrow> error + bool \<Rightarrow> error + bool" where
  "or_else a b = (case a of Inl e \<Rightarrow> Inl e | Inr x \<Rightarrow> if x then Inr True else b)"

definition and_then :: "error + bool \<Rightarrow> error + bool \<Rightarrow> error + bool" where
  "and_then a b = (case a of Inl e \<Rightarrow> Inl e | Inr x \<Rightarrow> if x then b else Inr False)"

definition is_number :: "ucd \<Rightarrow> detector \<Rightarrow> ustring \<Rightarrow> error + bool" where
  "is_number u td cell =
     (if cell = [] then Inr False
      else or_else (run_regex u td cell ''number_1'')
             (or_else (run_regex u td cell ''number_2'')
                (or_else (run_regex u td cell ''number_3'') (Inr False))))"

definition is_url_or_email :: "ucd \<Rightarrow> detector \<Rightarrow> ustring \<Rightarrow> error + bool" where
  "is_url_or_email u td cell =
     or_else (run_regex u td cell ''url'') (run_regex u td cell ''email'')"

definition is_unicode_alphanum :: "ucd \<Rightarrow> detector \<Rightarrow> ustring \<Rightarrow> error + bool" where
  "is_unicode_alphanum u td cell = run_regex u td cell ''unicode_alphanum''"

text \<open>The loop of \<^verbatim>\<open>is_date\<close> over the names of the dictionary.\<close>

fun any_date :: "ucd \<Rightarrow> detector \<Rightarrow> ustring \<Rightarrow> string list \<Rightarrow> error + bool" where
  "any_date u td cell [] = Inr False"
| "any_date u td cell (patname # names) =
     (if startswith patname ''date_''
      then (case run_regex u td cell patname of
              Inl e \<Rightarrow> Inl e
            | Inr b \<Rightarrow> if b then Inr True else any_date u td cell names)
      else any_date u td cell names)"

definition is_date :: "ucd \<Rightarrow> detector \<Rightarrow> ustring \<Rightarrow> error + bool" where
  "is_date u td cell =
     (case is_number u td cell of
        Inl e \<Rightarrow> Inl e
      | Inr b \<Rightarrow> if b then Inr False else any_date u td cell (map fst (patterns td)))"

definition is_time :: "ucd \<Rightarrow> detector \<Rightarrow> ustring \<Rightarrow> error + bool" where
  "is_time u td cell =
     or_else (run_regex u td cell ''time_hmm'')
       (or_else (run_regex u td cell ''time_hhmm'') (run_regex u td cell ''time_hhmmss''))"

definition is_empty :: "ucd \<Rightarrow> detector \<Rightarrow> ustring \<Rightarrow> error + bool" where
  "is_empty u td cell = (let cell = stripped td cell in Inr (cell = []))"

definition is_percentage :: "ucd \<Rightarrow> detector \<Rightarrow> ustring \<Rightarrow> error + bool" where
  "is_percentage u td cell =
     (let cell = stripped td cell in
      and_then (Inr (endswith cell 37)) (is_number u td (rstrip 37 cell)))"

text \<open>
  \<^verbatim>\<open>is_currency\<close>.  A group that took no part in the match would give \<^verbatim>\<open>None\<close>, on which
  \<^verbatim>\<open>is_number\<close> raises (\<^verbatim>\<open>None.strip\<close>, or \<^verbatim>\<open>fullmatch(None)\<close> without the strip).
\<close>

definition is_currency :: "ucd \<Rightarrow> detector \<Rightarrow> ustring \<Rightarrow> error + bool" where
  "is_currency u td cell =
     (let cell = stripped td cell in
      case map_of (patterns td) ''currency'' of
        None \<Rightarrow> Inl AttributeError
      | Some pat \<Rightarrow>
         (case fullmatch u pat cell of
            None \<Rightarrow> Inr False
          | Some m \<Rightarrow>
             (case m_group m ''1'' of
                None \<Rightarrow> Inl (if strip_whitespace td then AttributeError else TypeError)
              | Some grp \<Rightarrow>
                 (case is_number u td grp of
                    Inl e \<Rightarrow> Inl e
                  | Inr b \<Rightarrow> if \<not> b then Inr False else Inr True))))"

text \<open>\<^verbatim>\<open>parts[i]\<close>: an index out of range raises.\<close>

definition item :: "'a list \<Rightarrow> nat \<Rightarrow> error + 'a" where
  "item xs i = (if i < length xs then Inr (xs ! i) else Inl IndexError)"

definition bind :: "error + 'a \<Rightarrow> ('a \<Rightarrow> error + 'b) \<Rightarrow> error + 'b" where
  "bind a f = (case a of Inl e \<Rightarrow> Inl e | Inr x \<Rightarrow> f x)"

text \<open>
  The branch of \<^verbatim>\<open>is_datetime\<close> for a time with an offset, the same code for \<^verbatim>\<open>+\<close> and
  \<^verbatim>\<open>-\<close>; \<open>None\<close> when the branch falls through to the final \<^verbatim>\<open>return False\<close>.
\<close>

definition offset_branch ::
  "ucd \<Rightarrow> detector \<Rightarrow> ustring \<Rightarrow> nat \<Rightarrow> error + bool" where
  "offset_branch u td part1 sg =
     (let subparts = split part1 sg in
      bind (item subparts 0) (\<lambda>sub0.
      bind (is_time u td sub0) (\<lambda>istime1.
      bind (item subparts 1) (\<lambda>sub1.
      bind (is_time u td sub1) (\<lambda>istime2.
        if \<not> istime1 then Inr False
        else if istime2 then Inr True
        else bind (run_regex u td sub1 ''time_HHMM'') (\<lambda>b1.
          if b1 then Inr True
          else bind (run_regex u td sub1 ''time_HH'') (\<lambda>b2.
            if b2 then Inr True else Inr False)))))))"

definition is_datetime :: "ucd \<Rightarrow> detector \<Rightarrow> ustring \<Rightarrow> error + bool" where
  "is_datetime u td cell =
     (if 32 \<in> set cell then
        (let parts = split cell 32 in
         if length parts > 2 then Inr False
         else bind (item parts 0) (\<lambda>p0.
              and_then (is_date u td p0) (bind (item parts 1) (\<lambda>p1. is_time u td p1))))
      else if 84 \<in> set cell then
        (let parts = split cell 84 in
         if length parts > 2 then Inr False
         else bind (item parts 0) (\<lambda>p0.
              bind (is_date u td p0) (\<lambda>isdate.
                if \<not> isdate then Inr False
                else bind (item parts 1) (\<lambda>p1.
                  bind (is_time u td p1) (\<lambda>t.
                    if t then Inr True
                    else if 43 \<in> set p1 then offset_branch u td p1 43
                    else if 45 \<in> set p1 then offset_branch u td p1 45
                    else Inr False)))))
      else Inr False)"

definition is_nan :: "ucd \<Rightarrow> detector \<Rightarrow> ustring \<Rightarrow> error + bool" where
  "is_nan u td cell =
     (let cell = stripped td cell in
      if lower u cell = str ''n/a'' then Inr True else Inr False)"

text \<open>The ordered tests of \<^verbatim>\<open>detect_type\<close>; \<open>None\<close> is Python's \<^verbatim>\<open>None\<close>: no type matched.\<close>

type_synonym predicate = "ucd \<Rightarrow> detector \<Rightarrow> ustring \<Rightarrow> error + bool"

definition type_tests :: "(string \<times> predicate) list" where
  "type_tests =
    [(''empty'', is_empty),
     (''url_or_email'', is_url_or_email),
     (''number'', is_number),
     (''time'', is_time),
     (''percentage'', is_percentage),
     (''currency'', is_currency),
     (''unicode_alphanum'', is_unicode_alphanum),
     (''nan'', is_nan),
     (''date'', is_date),
     (''datetime'', is_datetime)]"

fun first_test ::
  "(string \<times> predicate) list \<Rightarrow> ucd \<Rightarrow> detector \<Rightarrow> ustring \<Rightarrow> error + string option" where
  "first_test [] u td cell = Inr None"
| "first_test ((name, func) # tests) u td cell =
     (case func u td cell of
        Inl e \<Rightarrow> Inl e
      | Inr b \<Rightarrow> if b then Inr (Some name) else first_test tests u td cell)"

definition detect_type :: "ucd \<Rightarrow> detector \<Rightarrow> ustring \<Rightarrow> error + string option" where
  "detect_type u td cell = first_test type_tests u td cell"

definition is_known_type :: "ucd \<Rightarrow> detector \<Rightarrow> ustring \<Rightarrow> error + bool" where
  "is_known_type u td cell = bind (detect_type u td cell) (\<lambda>r. Inr (\<not> (r = None)))"

section \<open>The scorer\<close>

definition DEFAULT_EPS_TYPE :: real where
  "DEFAULT_EPS_TYPE = 1 / 10 ^ 10"

text \<open>
  The two counters of \<^verbatim>\<open>type_score\<close> over the cells, row after row; a \<^verbatim>\<open>True\<close> adds one to
  \<^verbatim>\<open>known\<close>.
\<close>

fun count_cells ::
  "ucd \<Rightarrow> detector \<Rightarrow> ustring list \<Rightarrow> nat \<times> nat \<Rightarrow> error + nat \<times> nat" where
  "count_cells u td [] (total_c, known_c) = Inr (total_c, known_c)"
| "count_cells u td (cell # cells) (total_c, known_c) =
     (case is_known_type u td cell of
        Inl e \<Rightarrow> Inl e
      | Inr b \<Rightarrow> count_cells u td cells (total_c + 1, known_c + (if b then 1 else 0)))"

text \<open>
  \<^verbatim>\<open>type_score\<close>.  The parser \<^verbatim>\<open>parse_data\<close> lives in another module and is a parameter: it
  gives the rows, each a list of cells.  The score is a real number here; Python computes
  it in floating point.
\<close>

definition type_score ::
  "ucd \<Rightarrow> ('d \<Rightarrow> 'l \<Rightarrow> ustring list list) \<Rightarrow> 'd \<Rightarrow> 'l \<Rightarrow> real \<Rightarrow> error + real" where
  "type_score u parse_data data dialect eps =
     (let td = TypeDetector True in
      case count_cells u td (concat (parse_data data dialect)) (0, 0) of
        Inl e \<Rightarrow> Inl e
      | Inr (total_c, known_c) \<Rightarrow>
          if total_c = 0 then Inr eps else Inr (max eps (real known_c / real total_c)))"

section \<open>Notions the properties are stated with\<close>

text \<open>A pattern matches a whole string.\<close>

definition matches :: "ucd \<Rightarrow> rx \<Rightarrow> ustring \<Rightarrow> bool" where
  "matches u r cell = (fullmatch u r cell \<noteq> None)"

text \<open>The generated date formats.\<close>

definition date_patterns :: "rx list" where
  "date_patterns = first_loop @ second_loop"

definition date_names :: "string list" where
  "date_names = map (\<lambda>i. ''date_'' @ decimal i) [0..<48]"

text \<open>
  The bare offset form in the words of the specification: four digits, an hour from 00 to
  23 followed by a minute from 00 to 59, with no separator.
\<close>

definition hour_minute_form :: "ustring \<Rightarrow> bool" where
  "hour_minute_form s =
     (case s of
        [h1, h2, m1, m2] \<Rightarrow>
          is_ascii_digit h1 \<and> is_ascii_digit h2 \<and> is_ascii_digit m1 \<and> is_ascii_digit m2 \<and>
          10 * (h1 - 48) + (h2 - 48) \<le> 23 \<and> 10 * (m1 - 48) + (m2 - 48) \<le> 59
      | _ \<Rightarrow> False)"

text \<open>The number of cells of a known type, the \<^verbatim>\<open>known\<close> of \<^verbatim>\<open>type_score\<close>.\<close>

definition known_cells :: "ucd \<Rightarrow> ustring list \<Rightarrow> nat" where
  "known_cells u cells =
     length (filter (\<lambda>cell. is_known_type u (TypeDetector True) cell = Inr True) cells)"

text \<open>Two parsers for closed examples: one row with one empty cell, and no rows.\<close>

definition one_empty_cell :: "unit \<Rightarrow> unit \<Rightarrow> ustring list list" where
  "one_empty_cell data dialect = [[[]]]"

definition no_rows :: "unit \<Rightarrow> unit \<Rightarrow> ustring list list" where
  "no_rows data dialect = []"

section \<open>Strings: facts about strip and split\<close>

lemma rstrip_lstrip_fix: "lstrip k (rstrip k (lstrip k c)) = rstrip k (lstrip k c)"
proof -
  define P where "P = (\<lambda>x. x = k)"
  define d where "d = dropWhile P c"
  define r where "r = rev (dropWhile P (rev d))"
  have split_d: "d = r @ rev (takeWhile P (rev d))"
    unfolding r_def by (metis rev_append rev_rev_ident takeWhile_dropWhile_id)
  have "dropWhile P r = r"
  proof (cases r)
    case Nil
    then show ?thesis by simp
  next
    case (Cons x xs)
    then have "d \<noteq> []" and "hd d = x" using split_d by (metis Nil_is_append_conv list.distinct(1), metis hd_append2 list.sel(1) list.distinct(1))
    then have "\<not> P x" unfolding d_def using hd_dropWhile by metis
    then show ?thesis using Cons by simp
  qed
  then show ?thesis by (simp add: lstrip_def rstrip_def P_def d_def r_def)
qed

lemma rstrip_idem: "rstrip k (rstrip k c) = rstrip k c"
  by (simp add: rstrip_def)

lemma strip_idem: "strip k (strip k c) = strip k c"
  by (simp add: strip_def rstrip_lstrip_fix rstrip_idem)

lemma stripped_idem: "stripped td (stripped td c) = stripped td c"
  by (simp add: stripped_def strip_idem)

lemma split_nonempty: "split c sp \<noteq> []"
  by (induction c) (auto split: list.splits)

lemma split_length: "sp \<in> set c \<Longrightarrow> 2 \<le> length (split c sp)"
proof (induction c)
  case Nil
  then show ?case by simp
next
  case (Cons a c)
  show ?case
  proof (cases "a = sp")
    case True
    then show ?thesis using split_nonempty [of c sp] by (cases "split c sp") auto
  next
    case False
    then have "sp \<in> set c" using Cons.prems by simp
    then have "2 \<le> length (split c sp)" by (rule Cons.IH)
    then show ?thesis using False by (cases "split c sp") auto
  qed
qed

section \<open>The dictionary built by the constructor\<close>

lemma update_fresh: "k \<notin> fst ` set al \<Longrightarrow> AList.update k v al = al @ [(k, v)]"
  by (induction al) auto

lemma store_dates_fresh:
  "distinct (map nm [k..<k + length pats]) \<Longrightarrow>
   set (map nm [k..<k + length pats]) \<inter> fst ` set ps = {} \<Longrightarrow>
   fold (\<lambda>pattern (ps, counter). (AList.update (nm counter) pattern ps, counter + 1)) pats (ps, k)
     = (ps @ zip (map nm [k..<k + length pats]) pats, k + length pats)"
proof (induction pats arbitrary: ps k)
  case Nil
  then show ?case by simp
next
  case (Cons p pats)
  have upt: "[k..<k + length (p # pats)] = k # [Suc k..<Suc k + length pats]"
    using upt_conv_Cons [of k "k + length (p # pats)"] by simp
  have fresh: "nm k \<notin> fst ` set ps" using Cons.prems(2) unfolding upt by auto
  have d: "distinct (map nm [Suc k..<Suc k + length pats])"
    and nk: "nm k \<notin> set (map nm [Suc k..<Suc k + length pats])"
    using Cons.prems(1) unfolding upt by auto
  have disj: "set (map nm [Suc k..<Suc k + length pats]) \<inter> fst ` set (ps @ [(nm k, p)]) = {}"
    using Cons.prems(2) nk unfolding upt by auto
  show ?case
    using Cons.IH [OF d disj] fresh unfolding upt
    by (simp add: update_fresh)
qed

lemma date_names_eval: "date_names = [''date_0'', ''date_1'', ''date_2'', ''date_3'', ''date_4'', ''date_5'', ''date_6'',
  ''date_7'', ''date_8'', ''date_9'', ''date_10'', ''date_11'', ''date_12'',
  ''date_13'', ''date_14'', ''date_15'', ''date_16'', ''date_17'',
  ''date_18'', ''date_19'', ''date_20'', ''date_21'', ''date_22'',
  ''date_23'', ''date_24'', ''date_25'', ''date_26'', ''date_27'',
  ''date_28'', ''date_29'', ''date_30'', ''date_31'', ''date_32'',
  ''date_33'', ''date_34'', ''date_35'', ''date_36'', ''date_37'',
  ''date_38'', ''date_39'', ''date_40'', ''date_41'', ''date_42'',
  ''date_43'', ''date_44'', ''date_45'', ''date_46'', ''date_47'']"
  unfolding date_names_def by code_simp

lemma length_date_patterns: "length date_patterns = 48"
  by (simp add: date_patterns_def first_loop_def second_loop_def)

lemma distinct_date_names: "distinct date_names"
  unfolding date_names_eval by simp

lemma date_names_fresh: "set date_names \<inter> fst ` set PATTERNS = {}"
  unfolding date_names_eval PATTERNS_def by simp

lemma store_dates_range:
  assumes "length pats = j - k" and "k \<le> j"
    and "distinct (map nm [k..<j])"
    and "set (map nm [k..<j]) \<inter> fst ` set ps = {}"
  shows "fold (\<lambda>pattern (ps, counter). (AList.update (nm counter) pattern ps, counter + 1)) pats (ps, k)
     = (ps @ zip (map nm [k..<j]) pats, j)"
proof -
  have j: "k + length pats = j" using assms(1,2) by simp
  show ?thesis
    using store_dates_fresh [of nm k pats ps] assms(3,4) unfolding j by simp
qed

lemma patterns_TypeDetector:
  "patterns (TypeDetector sw) = PATTERNS @ zip date_names date_patterns"
proof -
  let ?nm = "\<lambda>i. ''date_'' @ decimal i"
  have l1: "length first_loop = 40 - 0" and l2: "length second_loop = 48 - 40"
    by (simp_all add: first_loop_def second_loop_def)
  have u: "[0..<48::nat] = [0..<40] @ [40..<48]"
    using upt_add_eq_append [of 0 40 8] by simp
  have names: "date_names = map ?nm [0..<40] @ map ?nm [40..<48]"
    unfolding date_names_def u map_append by (rule refl)
  have d1: "distinct (map ?nm [0..<40])"
    and d2: "distinct (map ?nm [40..<48])"
    and x: "set (map ?nm [0..<40]) \<inter> set (map ?nm [40..<48]) = {}"
    using distinct_date_names unfolding names by (simp_all only: distinct_append) 
  have f1: "set (map ?nm [0..<40]) \<inter> fst ` set PATTERNS = {}"
    and f2: "set (map ?nm [40..<48]) \<inter> fst ` set PATTERNS = {}"
    using date_names_fresh unfolding names by (auto simp only: set_append)
  have s1: "store_dates first_loop (PATTERNS, 0) = (PATTERNS @ zip (map ?nm [0..<40]) first_loop, 40)"
    unfolding store_dates_def by (rule store_dates_range [OF l1 _ d1 f1]) simp
  have f3: "set (map ?nm [40..<48]) \<inter>
      fst ` set (PATTERNS @ zip (map ?nm [0..<40]) first_loop) = {}"
  proof -
    have "fst ` set (zip (map ?nm [0..<40]) first_loop) \<subseteq> set (map ?nm [0..<40])"
      by (auto dest: set_zip_leftD)
    then show ?thesis using f2 x unfolding set_append image_Un by blast
  qed
  have s2: "store_dates second_loop (PATTERNS @ zip (map ?nm [0..<40]) first_loop, 40)
      = ((PATTERNS @ zip (map ?nm [0..<40]) first_loop) @ zip (map ?nm [40..<48]) second_loop, 48)"
    unfolding store_dates_def by (rule store_dates_range [OF l2 _ d2 f3]) simp
  have z: "zip (map ?nm [0..<40] @ map ?nm [40..<48]) (first_loop @ second_loop)
     = zip (map ?nm [0..<40]) first_loop @ zip (map ?nm [40..<48]) second_loop"
    by (rule zip_append) (simp only: length_map length_upt l1)
  show ?thesis
    unfolding TypeDetector_def init_date_patterns_def s1 s2 names date_patterns_def z
    by (simp only: detector.simps fst_conv append_assoc)
qed

section \<open>The predicates on the constructed detector\<close>

lemma map_of_PATTERNS_append: "map_of PATTERNS n = Some p \<Longrightarrow> map_of (patterns (TypeDetector sw)) n = Some p"
  unfolding patterns_TypeDetector by (simp add: map_add_Some_iff)

lemma lookup_fixed:
  "map_of (patterns (TypeDetector sw)) ''number_1'' = Some pat_number_1"
  "map_of (patterns (TypeDetector sw)) ''number_2'' = Some pat_number_2"
  "map_of (patterns (TypeDetector sw)) ''number_3'' = Some pat_number_3"
  "map_of (patterns (TypeDetector sw)) ''url'' = Some pat_url"
  "map_of (patterns (TypeDetector sw)) ''email'' = Some pat_email"
  "map_of (patterns (TypeDetector sw)) ''unicode_alphanum'' = Some pat_unicode_alphanum"
  "map_of (patterns (TypeDetector sw)) ''time_hhmmss'' = Some pat_time_hhmmss"
  "map_of (patterns (TypeDetector sw)) ''time_hhmm'' = Some pat_time_hhmm"
  "map_of (patterns (TypeDetector sw)) ''time_HHMM'' = Some pat_time_HHMM"
  "map_of (patterns (TypeDetector sw)) ''time_HH'' = Some pat_time_HH"
  "map_of (patterns (TypeDetector sw)) ''time_hmm'' = Some pat_time_hmm"
  "map_of (patterns (TypeDetector sw)) ''currency'' = Some pat_currency"
  by (rule map_of_PATTERNS_append, simp add: PATTERNS_def)+

lemma run_regex_lookup:
  "map_of (patterns td) n = Some p \<Longrightarrow> run_regex u td c n = Inr (matches u p (stripped td c))"
  by (simp add: run_regex_def matches_def)

lemmas run_regex_fixed = lookup_fixed [THEN run_regex_lookup]

lemma is_number_eq:
  "is_number u (TypeDetector sw) c =
     Inr (c \<noteq> [] \<and> (matches u pat_number_1 (stripped (TypeDetector sw) c)
        \<or> matches u pat_number_2 (stripped (TypeDetector sw) c)
        \<or> matches u pat_number_3 (stripped (TypeDetector sw) c)))"
  by (simp add: is_number_def run_regex_fixed or_else_def)

lemma is_url_or_email_eq:
  "is_url_or_email u (TypeDetector sw) c =
     Inr (matches u pat_url (stripped (TypeDetector sw) c) \<or> matches u pat_email (stripped (TypeDetector sw) c))"
  by (simp add: is_url_or_email_def run_regex_fixed or_else_def)

lemma is_unicode_alphanum_eq:
  "is_unicode_alphanum u (TypeDetector sw) c =
     Inr (matches u pat_unicode_alphanum (stripped (TypeDetector sw) c))"
  by (simp add: is_unicode_alphanum_def run_regex_fixed)

lemma is_time_eq:
  "is_time u (TypeDetector sw) c =
     Inr (matches u pat_time_hmm (stripped (TypeDetector sw) c)
        \<or> matches u pat_time_hhmm (stripped (TypeDetector sw) c)
        \<or> matches u pat_time_hhmmss (stripped (TypeDetector sw) c))"
  by (simp add: is_time_def run_regex_fixed or_else_def)

lemma is_empty_eq: "is_empty u td c = Inr (stripped td c = [])"
  by (simp add: is_empty_def)

lemma is_nan_eq: "is_nan u td c = Inr (lower u (stripped td c) = str ''n/a'')"
  by (simp add: is_nan_def)

lemma is_percentage_eq:
  "is_percentage u (TypeDetector sw) c =
     Inr (endswith (stripped (TypeDetector sw) c) 37 \<and>
          is_number u (TypeDetector sw) (rstrip 37 (stripped (TypeDetector sw) c)) = Inr True)"
  by (simp add: is_percentage_def and_then_def is_number_eq Let_def)

lemma run_Cap_sets: "m \<in> set (run u (Cap n r) s) \<Longrightarrow> \<exists>g. map_of (caps m) n = Some g"
  by auto

lemma run_Seq_mem: "m \<in> set (run u (Seq a b) s) \<Longrightarrow> \<exists>t. m \<in> set (run u b t)"
  by auto

text \<open>Every complete match of the currency pattern has captured group 1.\<close>

lemma currency_group:
  assumes "fullmatch u pat_currency c = Some m"
  shows "\<exists>g. m_group m ''1'' = Some g"
proof -
  from assms have "m \<in> set (run u pat_currency \<lparr>pos = 0, rest = c, caps = []\<rparr>)"
    by (auto simp: fullmatch_def find_Some_iff)
  then have "m \<in> set (run u (Seq (Cls [PropSc]) (Seq (Opt (Cls [Space])) (Cap ''1'' (Star Dot))))
      \<lparr>pos = 0, rest = c, caps = []\<rparr>)"
    by (simp only: pat_currency_def seqs.simps)
  then obtain t where "m \<in> set (run u (Seq (Opt (Cls [Space])) (Cap ''1'' (Star Dot))) t)"
    by (blast dest: run_Seq_mem)
  then obtain t' where "m \<in> set (run u (Cap ''1'' (Star Dot)) t')"
    by (blast dest: run_Seq_mem)
  then show ?thesis
    unfolding m_group_def by (rule run_Cap_sets)
qed

lemma is_currency_eq:
  "is_currency u (TypeDetector sw) c =
     Inr (\<exists>m g. fullmatch u pat_currency (stripped (TypeDetector sw) c) = Some m \<and>
            m_group m ''1'' = Some g \<and> is_number u (TypeDetector sw) g = Inr True)"
proof (cases "fullmatch u pat_currency (stripped (TypeDetector sw) c)")
  case None
  then show ?thesis by (simp add: is_currency_def lookup_fixed)
next
  case (Some m)
  then obtain g where "m_group m ''1'' = Some g" using currency_group by blast
  then show ?thesis using Some by (simp add: is_currency_def lookup_fixed is_number_eq)
qed

lemma any_date_eq:
  "set ns \<subseteq> fst ` set (patterns td) \<Longrightarrow>
   any_date u td c ns =
     Inr (\<exists>n\<in>set ns. startswith n ''date_'' \<and>
            (\<exists>p. map_of (patterns td) n = Some p \<and> matches u p (stripped td c)))"
proof (induction ns)
  case Nil
  then show ?case by simp
next
  case (Cons n ns)
  then have "n \<in> fst ` set (patterns td)" by simp
  then obtain p where p: "map_of (patterns td) n = Some p"
    by (metis map_of_eq_None_iff not_Some_eq)
  have ih: "any_date u td c ns =
     Inr (\<exists>n\<in>set ns. startswith n ''date_'' \<and>
            (\<exists>p. map_of (patterns td) n = Some p \<and> matches u p (stripped td c)))"
    using Cons by simp
  show ?case
    by (simp add: ih run_regex_lookup [OF p] p)
qed

lemma startswith_date_names: "n \<in> set date_names \<Longrightarrow> startswith n ''date_''"
  by (auto simp: date_names_def startswith_def)

lemma not_startswith_PATTERNS: "(n, p) \<in> set PATTERNS \<Longrightarrow> \<not> startswith n ''date_''"
  by (auto simp: PATTERNS_def startswith_def)

lemma distinct_keys: "distinct (map fst (patterns (TypeDetector sw)))"
proof -
  have "length date_names = length date_patterns"
    by (simp add: length_date_patterns date_names_def)
  then have "map fst (zip date_names date_patterns) = date_names" by simp
  moreover have "distinct (map fst PATTERNS)" by (simp add: PATTERNS_def)
  moreover have "set (map fst PATTERNS) \<inter> set date_names = {}"
    using date_names_fresh by auto
  ultimately show ?thesis
    unfolding patterns_TypeDetector using distinct_date_names by simp
qed

lemma date_entries:
  "(\<exists>n\<in>set (map fst (patterns (TypeDetector sw))). startswith n ''date_'' \<and>
      (\<exists>p. map_of (patterns (TypeDetector sw)) n = Some p \<and> M p))
   \<longleftrightarrow> (\<exists>p\<in>set date_patterns. M p)"
proof
  assume "\<exists>n\<in>set (map fst (patterns (TypeDetector sw))). startswith n ''date_'' \<and>
      (\<exists>p. map_of (patterns (TypeDetector sw)) n = Some p \<and> M p)"
  then obtain n p where sw: "startswith n ''date_''"
    and look: "map_of (patterns (TypeDetector sw)) n = Some p" and "M p" by blast
  from look have "(n, p) \<in> set (PATTERNS @ zip date_names date_patterns)"
    unfolding patterns_TypeDetector by (rule map_of_SomeD)
  then have "(n, p) \<in> set (zip date_names date_patterns)"
    using sw not_startswith_PATTERNS by auto
  then have "p \<in> set date_patterns" by (rule set_zip_rightD)
  then show "\<exists>p\<in>set date_patterns. M p" using \<open>M p\<close> by blast
next
  assume "\<exists>p\<in>set date_patterns. M p"
  then obtain p where p: "p \<in> set date_patterns" and "M p" by blast
  have len: "length date_names = length date_patterns"
    by (simp add: length_date_patterns date_names_def)
  from p obtain i where i: "i < length date_patterns" and pi: "p = date_patterns ! i"
    by (metis in_set_conv_nth)
  define n where "n = date_names ! i"
  have mem: "(n, p) \<in> set (zip date_names date_patterns)"
    unfolding n_def pi using i len by (auto simp: set_zip)
  then have "(n, p) \<in> set (patterns (TypeDetector sw))"
    unfolding patterns_TypeDetector by simp
  then have look: "map_of (patterns (TypeDetector sw)) n = Some p"
    using distinct_keys by (simp add: map_of_is_SomeI)
  have "n \<in> set date_names" using mem by (rule set_zip_leftD)
  then have "startswith n ''date_''" by (rule startswith_date_names)
  moreover have "n \<in> set (map fst (patterns (TypeDetector sw)))"
    using \<open>(n, p) \<in> set (patterns (TypeDetector sw))\<close> by force
  ultimately show "\<exists>n\<in>set (map fst (patterns (TypeDetector sw))). startswith n ''date_'' \<and>
      (\<exists>p. map_of (patterns (TypeDetector sw)) n = Some p \<and> M p)"
    using look \<open>M p\<close> by blast
qed

lemma is_date_eq:
  "is_date u (TypeDetector sw) c =
     Inr (is_number u (TypeDetector sw) c \<noteq> Inr True \<and>
          (\<exists>p\<in>set date_patterns. matches u p (stripped (TypeDetector sw) c)))"
proof -
  have "any_date u (TypeDetector sw) c (map fst (patterns (TypeDetector sw))) =
     Inr (\<exists>p\<in>set date_patterns. matches u p (stripped (TypeDetector sw) c))"
  proof -
    have sub: "set (map fst (patterns (TypeDetector sw))) \<subseteq> fst ` set (patterns (TypeDetector sw))"
      by simp
    show ?thesis
      unfolding any_date_eq [OF sub] date_entries by (rule refl)
  qed
  then show ?thesis
    by (auto simp: is_date_def is_number_eq)
qed

lemma item_in: "i < length xs \<Longrightarrow> item xs i = Inr (xs ! i)"
  by (simp add: item_def)

lemma split_items:
  assumes "sp \<in> set c"
  shows "item (split c sp) 0 = Inr (split c sp ! 0)"
    and "item (split c sp) 1 = Inr (split c sp ! 1)"
    and "item (split c sp) (Suc 0) = Inr (split c sp ! Suc 0)"
  using split_length [OF assms] by (auto simp: item_def)

lemma is_time_total: "\<exists>b. is_time u (TypeDetector sw) c = Inr b"
  by (simp add: is_time_eq)

lemma is_date_total: "\<exists>b. is_date u (TypeDetector sw) c = Inr b"
  by (simp add: is_date_eq)

lemma offset_branch_eq:
  assumes "sg \<in> set p1"
  shows "offset_branch u (TypeDetector sw) p1 sg =
     Inr (is_time u (TypeDetector sw) (split p1 sg ! 0) = Inr True \<and>
          (is_time u (TypeDetector sw) (split p1 sg ! 1) = Inr True
           \<or> matches u pat_time_HHMM (stripped (TypeDetector sw) (split p1 sg ! 1))
           \<or> matches u pat_time_HH (stripped (TypeDetector sw) (split p1 sg ! 1))))"
proof -
  obtain t0 where t0: "is_time u (TypeDetector sw) (split p1 sg ! 0) = Inr t0"
    using is_time_total by blast
  obtain t1 where t1: "is_time u (TypeDetector sw) (split p1 sg ! 1) = Inr t1"
    using is_time_total by blast
  show ?thesis
    using t0 t1
    by (simp add: offset_branch_def Let_def split_items [OF assms] bind_def run_regex_fixed)
qed

lemma is_datetime_space:
  assumes "32 \<in> set c"
  shows "is_datetime u (TypeDetector sw) c =
     Inr (length (split c 32) = 2 \<and> is_date u (TypeDetector sw) (split c 32 ! 0) = Inr True
          \<and> is_time u (TypeDetector sw) (split c 32 ! 1) = Inr True)"
proof -
  obtain d where d: "is_date u (TypeDetector sw) (split c 32 ! 0) = Inr d"
    using is_date_total by blast
  obtain t where t: "is_time u (TypeDetector sw) (split c 32 ! 1) = Inr t"
    using is_time_total by blast
  have len: "2 \<le> length (split c 32)" using assms by (rule split_length)
  show ?thesis
    using assms len d t
    by (auto simp: is_datetime_def Let_def split_items [OF assms] bind_def and_then_def)
qed

lemma is_datetime_T:
  assumes "32 \<notin> set c" and "84 \<in> set c"
  shows "is_datetime u (TypeDetector sw) c =
     Inr (length (split c 84) = 2 \<and> is_date u (TypeDetector sw) (split c 84 ! 0) = Inr True
          \<and> (is_time u (TypeDetector sw) (split c 84 ! 1) = Inr True
               \<or> (43 \<in> set (split c 84 ! 1) \<and>
                    offset_branch u (TypeDetector sw) (split c 84 ! 1) 43 = Inr True)
               \<or> (43 \<notin> set (split c 84 ! 1) \<and> 45 \<in> set (split c 84 ! 1) \<and>
                    offset_branch u (TypeDetector sw) (split c 84 ! 1) 45 = Inr True)))"
proof -
  obtain d where d: "is_date u (TypeDetector sw) (split c 84 ! 0) = Inr d"
    using is_date_total by blast
  obtain t where t: "is_time u (TypeDetector sw) (split c 84 ! 1) = Inr t"
    using is_time_total by blast
  have len: "2 \<le> length (split c 84)" using assms(2) by (rule split_length)
  show ?thesis
    using assms len d t
    by (auto simp: is_datetime_def Let_def split_items [OF assms(2)] bind_def offset_branch_eq)
qed

lemma is_datetime_total: "\<exists>b. is_datetime u (TypeDetector sw) c = Inr b"
proof (cases "32 \<in> set c")
  case True
  then show ?thesis by (simp add: is_datetime_space)
next
  case False
  show ?thesis
  proof (cases "84 \<in> set c")
    case T: True
    then show ?thesis using False by (simp add: is_datetime_T)
  next
    case F: False
    then show ?thesis using False by (auto simp: is_datetime_def)
  qed
qed

lemma predicates_Inr:
  obtains e ue n t p cu a na d dt where
    "is_empty u (TypeDetector sw) c = Inr e"
    "is_url_or_email u (TypeDetector sw) c = Inr ue"
    "is_number u (TypeDetector sw) c = Inr n"
    "is_time u (TypeDetector sw) c = Inr t"
    "is_percentage u (TypeDetector sw) c = Inr p"
    "is_currency u (TypeDetector sw) c = Inr cu"
    "is_unicode_alphanum u (TypeDetector sw) c = Inr a"
    "is_nan u (TypeDetector sw) c = Inr na"
    "is_date u (TypeDetector sw) c = Inr d"
    "is_datetime u (TypeDetector sw) c = Inr dt"
proof -
  obtain e where 1: "is_empty u (TypeDetector sw) c = Inr e" by (simp add: is_empty_eq)
  obtain ue where 2: "is_url_or_email u (TypeDetector sw) c = Inr ue"
    by (simp add: is_url_or_email_eq)
  obtain n where 3: "is_number u (TypeDetector sw) c = Inr n" by (simp add: is_number_eq)
  obtain t where 4: "is_time u (TypeDetector sw) c = Inr t" by (simp add: is_time_eq)
  obtain p where 5: "is_percentage u (TypeDetector sw) c = Inr p"
    by (simp add: is_percentage_eq)
  obtain cu where 6: "is_currency u (TypeDetector sw) c = Inr cu" by (simp add: is_currency_eq)
  obtain a where 7: "is_unicode_alphanum u (TypeDetector sw) c = Inr a"
    by (simp add: is_unicode_alphanum_eq)
  obtain na where 8: "is_nan u (TypeDetector sw) c = Inr na" by (simp add: is_nan_eq)
  obtain d where 9: "is_date u (TypeDetector sw) c = Inr d" by (simp add: is_date_eq)
  obtain dt where 10: "is_datetime u (TypeDetector sw) c = Inr dt"
    using is_datetime_total by blast
  show thesis using 1 2 3 4 5 6 7 8 9 10 by (rule that)
qed

section \<open>Evaluating patterns on concrete strings\<close>

lemma rx_times_numeral: "rx_times (numeral k) r = Seq r (rx_times (pred_numeral k) r)"
  by (simp add: numeral_eq_Suc)

lemma rx_upto_numeral: "rx_upto (numeral k) r = Opt (Seq r (rx_upto (pred_numeral k) r))"
  by (simp add: numeral_eq_Suc)

lemma rx_one: "rx_times 1 r = Seq r Eps" "rx_upto 1 r = Opt (Seq r Eps)"
  by simp_all

lemmas eval_defs = matches_def fullmatch_def str_def one_char_def advance_def
  cls_digit_def cls_word_def cls_space_def cls_N_def cls_L_def cls_Sc_def
  is_ascii_digit_def is_ascii_letter_def
  Opt_def Plus_def rep_def lit_def ch_def rng_def rx_times_numeral rx_upto_numeral rx_one
  digit_def sign_def exponent_def d19_def d09_def user_chars_def host_chars_def alnum_def
  hour2_def hour1_def minute_def

lemmas number_defs = pat_number_1_def pat_number_2_def pat_number_3_def

lemmas time_defs = pat_time_hmm_def pat_time_hhmm_def pat_time_hhmmss_def

lemmas date_defs = year2_def year4_def month_leading_def month_sparse_def day_leading_def
  day_sparse_def sep_def pat_1_def pat_2_def pat_3_def pat_cn_def pat_ko_def

lemmas strip_defs = stripped_def strip_def lstrip_def rstrip_def

section \<open>Example cells\<close>

lemma is_number_true:
  "is_number u (TypeDetector sw) (str ''0'') = Inr True"
  "is_number u (TypeDetector sw) (str ''-12'') = Inr True"
  "is_number u (TypeDetector sw) (str ''3.14'') = Inr True"
  "is_number u (TypeDetector sw) (str ''3,14'') = Inr True"
  "is_number u (TypeDetector sw) (str ''1e10'') = Inr True"
  "is_number u (TypeDetector sw) (str ''1,234.56'') = Inr True"
  "is_number u (TypeDetector sw) (str ''1.234,56'') = Inr True"
  "is_number u (TypeDetector sw) (str ''+'') = Inr True"
  "is_number u (TypeDetector sw) (str ''-'') = Inr True"
  "is_number u (TypeDetector sw) (str ''.'') = Inr True"
  "is_number u (TypeDetector sw) (str ''19990101'') = Inr True"
  by (simp_all add: is_number_eq strip_defs eval_defs number_defs)

lemma is_number_false:
  "is_number u (TypeDetector sw) (str []) = Inr False"
  "is_number u (TypeDetector sw) (str ''01'') = Inr False"
  "is_number u (TypeDetector sw) (str ''2023-01-01'') = Inr False"
  by (simp_all add: is_number_eq strip_defs eval_defs number_defs)

lemma not_empty_or_url:
  "is_empty u (TypeDetector sw) (str ''19990101'') = Inr False"
  "is_empty u (TypeDetector sw) (str ''+'') = Inr False"
  "is_empty u (TypeDetector sw) (str ''-'') = Inr False"
  "is_empty u (TypeDetector sw) (str ''.'') = Inr False"
  "is_url_or_email u (TypeDetector sw) (str ''19990101'') = Inr False"
  "is_url_or_email u (TypeDetector sw) (str ''+'') = Inr False"
  "is_url_or_email u (TypeDetector sw) (str ''-'') = Inr False"
  "is_url_or_email u (TypeDetector sw) (str ''.'') = Inr False"
  by (simp_all add: is_empty_eq is_url_or_email_eq strip_defs eval_defs pat_url_def pat_email_def)

lemma first_test_number:
  assumes "is_empty u td c = Inr False" and "is_url_or_email u td c = Inr False"
    and "is_number u td c = Inr True"
  shows "detect_type u td c = Inr (Some ''number'')"
  using assms by (simp add: detect_type_def type_tests_def)

lemma compact_date: "pat_1 year4 month_leading day_leading Eps \<in> set date_patterns"
  by (simp add: date_patterns_def second_loop_def)

lemma compact_matches: "matches u (pat_1 year4 month_leading day_leading Eps) (str ''19990101'')"
  by (simp add: eval_defs date_defs)

lemma iso_date: "pat_1 year4 month_leading day_leading sep \<in> set date_patterns"
  by (simp add: date_patterns_def first_loop_def)

lemma iso_matches: "matches u (pat_1 year4 month_leading day_leading sep) (str ''2023-01-01'')"
  by (simp add: eval_defs date_defs)

lemma stripped_examples:
  "stripped td (str ''2023-01-01'') = str ''2023-01-01''"
  "stripped td (str ''19990101'') = str ''19990101''"
  by (simp_all add: strip_defs str_def)

lemma is_date_iso: "is_date u (TypeDetector sw) (str ''2023-01-01'') = Inr True"
  using iso_date iso_matches [of u]
  by (auto simp add: is_date_eq is_number_false stripped_examples)

lemma is_time_examples:
  "is_time u (TypeDetector sw) (str ''12:30:00'') = Inr True"
  "is_time u (TypeDetector sw) (str ''02:00'') = Inr True"
  "is_time u (TypeDetector sw) (str ''12:30:00+02:00'') = Inr False"
  "is_time u (TypeDetector sw) (str ''12:30:00+0200'') = Inr False"
  "is_time u (TypeDetector sw) (str ''0200'') = Inr False"
  by (simp_all add: is_time_eq strip_defs eval_defs time_defs)

lemma split_examples:
  "split (str ''2023-01-01 12:30:00'') 32 = [str ''2023-01-01'', str ''12:30:00'']"
  "split (str ''2023-01-01T12:30:00+02:00'') 84 = [str ''2023-01-01'', str ''12:30:00+02:00'']"
  "split (str ''2023-01-01T12:30:00+0200'') 84 = [str ''2023-01-01'', str ''12:30:00+0200'']"
  "split (str ''12:30:00+02:00'') 43 = [str ''12:30:00'', str ''02:00'']"
  "split (str ''12:30:00+0200'') 43 = [str ''12:30:00'', str ''0200'']"
  by (simp_all add: str_def)

lemma offset_HHMM: "matches u pat_time_HHMM (stripped (TypeDetector sw) (str ''0200''))"
  by (simp add: strip_defs eval_defs pat_time_HHMM_def)

lemma is_datetime_examples:
  "is_datetime u (TypeDetector sw) (str ''2023-01-01 12:30:00'') = Inr True"
  "is_datetime u (TypeDetector sw) (str ''2023-01-01T12:30:00+02:00'') = Inr True"
  "is_datetime u (TypeDetector sw) (str ''2023-01-01T12:30:00+0200'') = Inr True"
proof -
  have sp: "32 \<in> set (str ''2023-01-01 12:30:00'')" by (simp add: str_def)
  show "is_datetime u (TypeDetector sw) (str ''2023-01-01 12:30:00'') = Inr True"
    by (simp add: is_datetime_space [OF sp] split_examples is_date_iso is_time_examples)
  have t1: "32 \<notin> set (str ''2023-01-01T12:30:00+02:00'')" "84 \<in> set (str ''2023-01-01T12:30:00+02:00'')"
    and p1: "43 \<in> set (str ''12:30:00+02:00'')"
    by (simp_all add: str_def)
  show "is_datetime u (TypeDetector sw) (str ''2023-01-01T12:30:00+02:00'') = Inr True"
    by (simp add: is_datetime_T [OF t1] split_examples is_date_iso is_time_examples p1
        offset_branch_eq [OF p1])
  have t2: "32 \<notin> set (str ''2023-01-01T12:30:00+0200'')" "84 \<in> set (str ''2023-01-01T12:30:00+0200'')"
    and p2: "43 \<in> set (str ''12:30:00+0200'')"
    by (simp_all add: str_def)
  show "is_datetime u (TypeDetector sw) (str ''2023-01-01T12:30:00+0200'') = Inr True"
    using offset_HHMM [of u sw]
    by (simp add: is_datetime_T [OF t2] split_examples is_date_iso is_time_examples p2
        offset_branch_eq [OF p2])
qed

section \<open>No leading zero in a number\<close>

lemma digit_not_special:
  assumes "cls_digit u d"
  shows "d \<noteq> 46" "d \<noteq> 44" "d \<noteq> 101" "d \<noteq> 69" "d \<noteq> 32" "d \<noteq> 43" "d \<noteq> 45"
  using assms by (auto simp: cls_digit_def is_ascii_digit_def split: if_splits)

lemma leading_zero_number_1:
  assumes "cls_digit u d"
  shows "\<not> matches u pat_number_1 (48 # d # cs)"
    and "\<not> matches u pat_number_1 (43 # 48 # d # cs)"
    and "\<not> matches u pat_number_1 (45 # 48 # d # cs)"
  using digit_not_special [OF assms]
  by (simp_all add: eval_defs pat_number_1_def)

lemma leading_zero_number_23:
  "\<not> matches u pat_number_2 (48 # cs)" "\<not> matches u pat_number_2 (43 # 48 # cs)"
  "\<not> matches u pat_number_2 (45 # 48 # cs)"
  "\<not> matches u pat_number_3 (48 # cs)" "\<not> matches u pat_number_3 (43 # 48 # cs)"
  "\<not> matches u pat_number_3 (45 # 48 # cs)"
  by (simp_all add: eval_defs number_defs)

lemma rstrip_Cons: "x \<noteq> k \<Longrightarrow> rstrip k (x # xs) = x # rstrip k xs"
  by (simp add: rstrip_def dropWhile_append)

lemma lstrip_Cons: "x \<noteq> k \<Longrightarrow> lstrip k (x # xs) = x # xs"
  by (simp add: lstrip_def)

lemma strip_Cons: "x \<noteq> k \<Longrightarrow> strip k (x # xs) = x # rstrip k xs"
  by (simp add: strip_def lstrip_Cons rstrip_Cons)

lemma stripped_Cons2:
  "a \<noteq> 32 \<Longrightarrow> b \<noteq> 32 \<Longrightarrow>
   stripped td (a # b # cs) = a # b # (if strip_whitespace td then rstrip 32 cs else cs)"
  by (simp add: stripped_def strip_Cons rstrip_Cons)

lemma stripped_Cons3:
  "a \<noteq> 32 \<Longrightarrow> b \<noteq> 32 \<Longrightarrow> c \<noteq> 32 \<Longrightarrow>
   stripped td (a # b # c # cs) = a # b # c # (if strip_whitespace td then rstrip 32 cs else cs)"
  by (simp add: stripped_def strip_Cons rstrip_Cons)

lemma leading_zero_is_number:
  assumes "cls_digit u d"
  shows "is_number u (TypeDetector sw) (48 # d # cs) = Inr False"
    and "is_number u (TypeDetector sw) (43 # 48 # d # cs) = Inr False"
    and "is_number u (TypeDetector sw) (45 # 48 # d # cs) = Inr False"
  using digit_not_special(5) [OF assms] leading_zero_number_1 [OF assms]
  by (simp_all add: is_number_eq stripped_Cons2 rstrip_Cons leading_zero_number_23)

text \<open>A cell that no predicate accepts.\<close>

lemma hash_unknown:
  "is_empty u (TypeDetector sw) (str ''#'') = Inr False"
  "is_url_or_email u (TypeDetector sw) (str ''#'') = Inr False"
  "is_number u (TypeDetector sw) (str ''#'') = Inr False"
  "is_time u (TypeDetector sw) (str ''#'') = Inr False"
  "is_percentage u (TypeDetector sw) (str ''#'') = Inr False"
  "is_currency u (TypeDetector sw) (str ''#'') = Inr False"
  "is_unicode_alphanum u (TypeDetector sw) (str ''#'') = Inr False"
  "is_nan u (TypeDetector sw) (str ''#'') = Inr False"
  "is_date u (TypeDetector sw) (str ''#'') = Inr False"
  "is_datetime u (TypeDetector sw) (str ''#'') = Inr False"
  by (simp_all add: is_empty_eq is_url_or_email_eq is_number_eq is_time_eq is_percentage_eq
      is_currency_eq is_unicode_alphanum_eq is_nan_eq is_date_eq is_datetime_def
      strip_defs eval_defs number_defs time_defs date_defs pat_url_def pat_email_def
      pat_currency_def pat_unicode_alphanum_def lower_def endswith_def
      date_patterns_def first_loop_def second_loop_def)

section \<open>The order of the tests\<close>

text \<open>
  C1.  For every cell, \<^verbatim>\<open>detect_type\<close> tries the predicates in the fixed order empty,
  url-or-email, number, time, percentage, currency, alphanumeric, not-a-number, date,
  date-time, and returns the label of the first one that holds; when none holds it returns
  \<^verbatim>\<open>None\<close>, the unknown label.
\<close>

theorem detect_type_priority:
  "detect_type u (TypeDetector sw) c = Inr
     (if is_empty u (TypeDetector sw) c = Inr True then Some ''empty''
      else if is_url_or_email u (TypeDetector sw) c = Inr True then Some ''url_or_email''
      else if is_number u (TypeDetector sw) c = Inr True then Some ''number''
      else if is_time u (TypeDetector sw) c = Inr True then Some ''time''
      else if is_percentage u (TypeDetector sw) c = Inr True then Some ''percentage''
      else if is_currency u (TypeDetector sw) c = Inr True then Some ''currency''
      else if is_unicode_alphanum u (TypeDetector sw) c = Inr True then Some ''unicode_alphanum''
      else if is_nan u (TypeDetector sw) c = Inr True then Some ''nan''
      else if is_date u (TypeDetector sw) c = Inr True then Some ''date''
      else if is_datetime u (TypeDetector sw) c = Inr True then Some ''datetime''
      else None)"
proof -
  obtain e ue n t p cu a na d dt where
    "is_empty u (TypeDetector sw) c = Inr e"
    "is_url_or_email u (TypeDetector sw) c = Inr ue"
    "is_number u (TypeDetector sw) c = Inr n"
    "is_time u (TypeDetector sw) c = Inr t"
    "is_percentage u (TypeDetector sw) c = Inr p"
    "is_currency u (TypeDetector sw) c = Inr cu"
    "is_unicode_alphanum u (TypeDetector sw) c = Inr a"
    "is_nan u (TypeDetector sw) c = Inr na"
    "is_date u (TypeDetector sw) c = Inr d"
    "is_datetime u (TypeDetector sw) c = Inr dt"
    by (rule predicates_Inr)
  then show ?thesis
    by (simp add: detect_type_def type_tests_def)
qed

theorem detect_type_priority_witness:
  "detect_type ascii_ucd (TypeDetector True) (str ''19990101'') = Inr (Some ''number'')"
  using detect_type_priority [of ascii_ucd True "str ''19990101''"]
  by (simp add: not_empty_or_url is_number_true)

text \<open>
  C2.  \<^verbatim>\<open>detect_type\<close> gives the unknown label exactly when \<^verbatim>\<open>is_known_type\<close> is false, and
  a label it returns is the label of a test whose predicate holds for the cell.
\<close>

theorem unknown_iff_not_known:
  "(detect_type u (TypeDetector sw) c = Inr None
      \<longleftrightarrow> is_known_type u (TypeDetector sw) c = Inr False) \<and>
   (\<forall>l. detect_type u (TypeDetector sw) c = Inr (Some l) \<longrightarrow>
      (\<exists>f. map_of type_tests l = Some f \<and> f u (TypeDetector sw) c = Inr True))"
proof -
  obtain e ue n t p cu a na d dt where
    "is_empty u (TypeDetector sw) c = Inr e"
    "is_url_or_email u (TypeDetector sw) c = Inr ue"
    "is_number u (TypeDetector sw) c = Inr n"
    "is_time u (TypeDetector sw) c = Inr t"
    "is_percentage u (TypeDetector sw) c = Inr p"
    "is_currency u (TypeDetector sw) c = Inr cu"
    "is_unicode_alphanum u (TypeDetector sw) c = Inr a"
    "is_nan u (TypeDetector sw) c = Inr na"
    "is_date u (TypeDetector sw) c = Inr d"
    "is_datetime u (TypeDetector sw) c = Inr dt"
    by (rule predicates_Inr)
  then show ?thesis
    by (simp add: is_known_type_def bind_def detect_type_def type_tests_def)
qed

theorem unknown_iff_not_known_witness:
  "detect_type ascii_ucd (TypeDetector True) (str ''.'') = Inr (Some ''number'') \<and>
   (\<exists>f. map_of type_tests ''number'' = Some f \<and>
        f ascii_ucd (TypeDetector True) (str ''.'') = Inr True)"
proof -
  have d: "detect_type ascii_ucd (TypeDetector True) (str ''.'') = Inr (Some ''number'')"
    by (rule first_test_number) (simp_all add: not_empty_or_url is_number_true)
  show ?thesis
    using unknown_iff_not_known [of ascii_ucd True "str ''.''"] d by blast
qed

section \<open>Dates and numbers\<close>

text \<open>
  C3, with the strip made explicit.  A cell that is a number is not a date.  For any other
  cell, \<^verbatim>\<open>is_date\<close> holds exactly when one of the generated date patterns matches the whole
  of the cell as \<^verbatim>\<open>_run_regex\<close> sees it: the cell without its leading and trailing spaces when
  the flag is set, the cell itself when it is not.  The cell \<^verbatim>\<open>19990101\<close> matches a compact
  date pattern, and \<^verbatim>\<open>detect_type\<close> calls it a number.
\<close>

theorem date_excludes_number:
  "(is_number u (TypeDetector sw) c = Inr True \<longrightarrow> is_date u (TypeDetector sw) c = Inr False) \<and>
   (is_number u (TypeDetector sw) c \<noteq> Inr True \<longrightarrow>
      (is_date u (TypeDetector sw) c = Inr True) =
      (\<exists>p\<in>set date_patterns. matches u p (stripped (TypeDetector sw) c))) \<and>
   (\<exists>p\<in>set date_patterns. matches u p (str ''19990101'')) \<and>
   is_number u (TypeDetector sw) (str ''19990101'') = Inr True \<and>
   detect_type u (TypeDetector sw) (str ''19990101'') = Inr (Some ''number'')"
proof -
  have "detect_type u (TypeDetector sw) (str ''19990101'') = Inr (Some ''number'')"
    by (rule first_test_number) (simp_all add: not_empty_or_url is_number_true)
  moreover have "\<exists>p\<in>set date_patterns. matches u p (str ''19990101'')"
    using compact_date compact_matches by blast
  ultimately show ?thesis
    by (simp add: is_date_eq is_number_true)
qed

theorem date_excludes_number_witness:
  "is_number ascii_ucd (TypeDetector True) (str ''19990101'') = Inr True \<and>
   is_date ascii_ucd (TypeDetector True) (str ''19990101'') = Inr False \<and>
   is_number ascii_ucd (TypeDetector True) (str ''2023-01-01'') \<noteq> Inr True \<and>
   (\<exists>p\<in>set date_patterns.
      matches ascii_ucd p (stripped (TypeDetector True) (str ''2023-01-01''))) \<and>
   is_date ascii_ucd (TypeDetector True) (str ''2023-01-01'') = Inr True"
proof -
  have n: "is_number ascii_ucd (TypeDetector True) (str ''2023-01-01'') \<noteq> Inr True"
    by (simp add: is_number_false)
  have m: "\<exists>p\<in>set date_patterns.
      matches ascii_ucd p (stripped (TypeDetector True) (str ''2023-01-01''))"
    using iso_date iso_matches [of ascii_ucd] by (auto simp: stripped_examples)
  show ?thesis
    using date_excludes_number [of ascii_ucd True "str ''19990101''"]
      date_excludes_number [of ascii_ucd True "str ''2023-01-01''"] n m
    by blast
qed

text \<open>
  C3 read on the cell itself fails.  With the flag set, the cell \<^verbatim>\<open>" 2023-01-01"\<close> is not a
  number and is a date, yet no date pattern matches the whole padded cell: every pattern
  starts with a digit.
\<close>

theorem date_padded_cell:
  "is_number ascii_ucd (TypeDetector True) (str '' 2023-01-01'') = Inr False \<and>
   is_date ascii_ucd (TypeDetector True) (str '' 2023-01-01'') = Inr True \<and>
   \<not> (\<exists>p\<in>set date_patterns. matches ascii_ucd p (str '' 2023-01-01''))"
proof -
  have s: "stripped (TypeDetector True) (str '' 2023-01-01'') = str ''2023-01-01''"
    by (simp add: strip_defs str_def TypeDetector_def)
  have n: "is_number ascii_ucd (TypeDetector True) (str '' 2023-01-01'') = Inr False"
    unfolding is_number_eq s by (simp add: eval_defs number_defs)
  have d: "is_date ascii_ucd (TypeDetector True) (str '' 2023-01-01'') = Inr True"
    unfolding is_date_eq s n using iso_date iso_matches [of ascii_ucd] by auto
  have m: "\<not> (\<exists>p\<in>set date_patterns. matches ascii_ucd p (str '' 2023-01-01''))"
    by (simp add: date_patterns_def first_loop_def second_loop_def eval_defs date_defs)
  show ?thesis using n d m by simp
qed

section \<open>Totality\<close>

text \<open>
  C5.  Every predicate, \<^verbatim>\<open>detect_type\<close> and \<^verbatim>\<open>is_known_type\<close> return a value on every cell:
  no index is out of range (the parts and subparts of \<^verbatim>\<open>is_datetime\<close> included), no
  pattern is missing and no group is unset.  A cell that no predicate accepts gets the
  unknown label, not an error.
\<close>

theorem predicates_total:
  "(\<exists>b. is_empty u (TypeDetector sw) c = Inr b) \<and>
   (\<exists>b. is_url_or_email u (TypeDetector sw) c = Inr b) \<and>
   (\<exists>b. is_number u (TypeDetector sw) c = Inr b) \<and>
   (\<exists>b. is_time u (TypeDetector sw) c = Inr b) \<and>
   (\<exists>b. is_percentage u (TypeDetector sw) c = Inr b) \<and>
   (\<exists>b. is_currency u (TypeDetector sw) c = Inr b) \<and>
   (\<exists>b. is_unicode_alphanum u (TypeDetector sw) c = Inr b) \<and>
   (\<exists>b. is_nan u (TypeDetector sw) c = Inr b) \<and>
   (\<exists>b. is_date u (TypeDetector sw) c = Inr b) \<and>
   (\<exists>b. is_datetime u (TypeDetector sw) c = Inr b) \<and>
   (\<exists>r. detect_type u (TypeDetector sw) c = Inr r) \<and>
   (\<exists>b. is_known_type u (TypeDetector sw) c = Inr b) \<and>
   (detect_type u (TypeDetector sw) c = Inr None \<longleftrightarrow>
      is_empty u (TypeDetector sw) c = Inr False \<and>
      is_url_or_email u (TypeDetector sw) c = Inr False \<and>
      is_number u (TypeDetector sw) c = Inr False \<and>
      is_time u (TypeDetector sw) c = Inr False \<and>
      is_percentage u (TypeDetector sw) c = Inr False \<and>
      is_currency u (TypeDetector sw) c = Inr False \<and>
      is_unicode_alphanum u (TypeDetector sw) c = Inr False \<and>
      is_nan u (TypeDetector sw) c = Inr False \<and>
      is_date u (TypeDetector sw) c = Inr False \<and>
      is_datetime u (TypeDetector sw) c = Inr False)"
proof -
  obtain e ue n t p cu a na d dt where
    "is_empty u (TypeDetector sw) c = Inr e"
    "is_url_or_email u (TypeDetector sw) c = Inr ue"
    "is_number u (TypeDetector sw) c = Inr n"
    "is_time u (TypeDetector sw) c = Inr t"
    "is_percentage u (TypeDetector sw) c = Inr p"
    "is_currency u (TypeDetector sw) c = Inr cu"
    "is_unicode_alphanum u (TypeDetector sw) c = Inr a"
    "is_nan u (TypeDetector sw) c = Inr na"
    "is_date u (TypeDetector sw) c = Inr d"
    "is_datetime u (TypeDetector sw) c = Inr dt"
    by (rule predicates_Inr)
  then show ?thesis
    by (auto simp: is_known_type_def bind_def detect_type_def type_tests_def)
qed

theorem predicates_total_witness:
  "detect_type ascii_ucd (TypeDetector True) (str ''#'') = Inr None \<and>
   is_known_type ascii_ucd (TypeDetector True) (str ''#'') = Inr False \<and>
   (\<exists>b. is_datetime ascii_ucd (TypeDetector True) [] = Inr b)"
proof -
  have "detect_type ascii_ucd (TypeDetector True) (str ''#'') = Inr None"
    using predicates_total [of ascii_ucd True "str ''#''"] by (simp add: hash_unknown)
  then show ?thesis
    using predicates_total [of ascii_ucd True "[]"]
    by (simp add: is_known_type_def bind_def)
qed

section \<open>Date-times\<close>

text \<open>
  C7.  A cell with a space is a date-time exactly when it splits at the spaces into two
  parts, a date and a time.  The three cells \<^verbatim>\<open>2023-01-01 12:30:00\<close>,
  \<^verbatim>\<open>2023-01-01T12:30:00+02:00\<close> and \<^verbatim>\<open>2023-01-01T12:30:00+0200\<close> are date-times.
\<close>

theorem datetime_composite:
  "(32 \<in> set c \<longrightarrow>
     (is_datetime u (TypeDetector sw) c = Inr True) =
     (\<exists>a b. split c 32 = [a, b] \<and> is_date u (TypeDetector sw) a = Inr True \<and>
            is_time u (TypeDetector sw) b = Inr True)) \<and>
   is_datetime u (TypeDetector sw) (str ''2023-01-01 12:30:00'') = Inr True \<and>
   is_datetime u (TypeDetector sw) (str ''2023-01-01T12:30:00+02:00'') = Inr True \<and>
   is_datetime u (TypeDetector sw) (str ''2023-01-01T12:30:00+0200'') = Inr True"
proof -
  have "(is_datetime u (TypeDetector sw) c = Inr True) =
     (\<exists>a b. split c 32 = [a, b] \<and> is_date u (TypeDetector sw) a = Inr True \<and>
            is_time u (TypeDetector sw) b = Inr True)" if sp: "32 \<in> set c"
  proof -
    have two: "(length (split c 32) = 2) = (\<exists>a b. split c 32 = [a, b])"
      by (auto simp: numeral_2_eq_2 length_Suc_conv)
    show ?thesis
      unfolding is_datetime_space [OF sp] by (auto simp: two)
  qed
  then show ?thesis by (simp add: is_datetime_examples)
qed

theorem datetime_composite_witness:
  "32 \<in> set (str ''2023-01-01 12:30:00'') \<and>
   (\<exists>a b. split (str ''2023-01-01 12:30:00'') 32 = [a, b] \<and>
      is_date ascii_ucd (TypeDetector True) a = Inr True \<and>
      is_time ascii_ucd (TypeDetector True) b = Inr True)"
proof -
  have sp: "32 \<in> set (str ''2023-01-01 12:30:00'')" by (simp add: str_def)
  show ?thesis
    using datetime_composite [of "str ''2023-01-01 12:30:00''" ascii_ucd True] sp by blast
qed

section \<open>Numbers\<close>

text \<open>
  C9.  The empty cell is not a number; \<^verbatim>\<open>0\<close>, \<^verbatim>\<open>-12\<close>, \<^verbatim>\<open>3.14\<close>, \<^verbatim>\<open>3,14\<close>, \<^verbatim>\<open>1e10\<close>,
  \<^verbatim>\<open>1,234.56\<close> and \<^verbatim>\<open>1.234,56\<close> are numbers.  No number starts, after an optional sign,
  with a zero followed by another digit: the plain form does not match such a cell, and
  neither do the grouped forms; \<^verbatim>\<open>01\<close> is not a number.
\<close>

theorem number_examples:
  "is_number u (TypeDetector sw) [] = Inr False \<and>
   is_number u (TypeDetector sw) (str ''0'') = Inr True \<and>
   is_number u (TypeDetector sw) (str ''-12'') = Inr True \<and>
   is_number u (TypeDetector sw) (str ''3.14'') = Inr True \<and>
   is_number u (TypeDetector sw) (str ''3,14'') = Inr True \<and>
   is_number u (TypeDetector sw) (str ''1e10'') = Inr True \<and>
   is_number u (TypeDetector sw) (str ''1,234.56'') = Inr True \<and>
   is_number u (TypeDetector sw) (str ''1.234,56'') = Inr True \<and>
   is_number u (TypeDetector sw) (str ''01'') = Inr False \<and>
   (cls_digit u d \<longrightarrow>
      \<not> matches u pat_number_1 (48 # d # cs) \<and>
      \<not> matches u pat_number_1 (43 # 48 # d # cs) \<and>
      \<not> matches u pat_number_1 (45 # 48 # d # cs) \<and>
      is_number u (TypeDetector sw) (48 # d # cs) = Inr False \<and>
      is_number u (TypeDetector sw) (43 # 48 # d # cs) = Inr False \<and>
      is_number u (TypeDetector sw) (45 # 48 # d # cs) = Inr False)"
proof -
  have "is_number u (TypeDetector sw) [] = Inr False"
    by (simp add: is_number_def)
  then show ?thesis
    by (simp add: is_number_true is_number_false leading_zero_number_1 leading_zero_is_number)
qed

theorem number_examples_witness:
  "cls_digit ascii_ucd 55 \<and>
   \<not> matches ascii_ucd pat_number_1 (str ''07'') \<and>
   is_number ascii_ucd (TypeDetector True) (str ''-07.5'') = Inr False"
proof -
  have d: "cls_digit ascii_ucd 55" by (simp add: cls_digit_def is_ascii_digit_def)
  have s: "str ''07'' = [48, 55]" "str ''-07.5'' = 45 # 48 # 55 # [46, 53]"
    by (simp_all add: str_def)
  show ?thesis
    using number_examples [of ascii_ucd True 55 "[]"]
      number_examples [of ascii_ucd True 55 "[46, 53]"] d
    unfolding s by blast
qed

text \<open>
  C10.  The one-character cells \<^verbatim>\<open>+\<close>, \<^verbatim>\<open>-\<close> and \<^verbatim>\<open>.\<close> are numbers (the plain pattern matches
  each of them: every part of it can be left out), and \<^verbatim>\<open>detect_type\<close> labels them so.
\<close>

theorem sign_and_dot_are_numbers:
  "matches u pat_number_1 (str ''+'') \<and>
   matches u pat_number_1 (str ''-'') \<and>
   matches u pat_number_1 (str ''.'') \<and>
   is_number u (TypeDetector sw) (str ''+'') = Inr True \<and>
   is_number u (TypeDetector sw) (str ''-'') = Inr True \<and>
   is_number u (TypeDetector sw) (str ''.'') = Inr True \<and>
   detect_type u (TypeDetector sw) (str ''+'') = Inr (Some ''number'') \<and>
   detect_type u (TypeDetector sw) (str ''-'') = Inr (Some ''number'') \<and>
   detect_type u (TypeDetector sw) (str ''.'') = Inr (Some ''number'')"
proof -
  have "matches u pat_number_1 (str ''+'')" "matches u pat_number_1 (str ''-'')"
    "matches u pat_number_1 (str ''.'')"
    by (simp_all add: eval_defs number_defs)
  moreover have "detect_type u (TypeDetector sw) (str ''+'') = Inr (Some ''number'')"
    by (rule first_test_number) (simp_all add: not_empty_or_url is_number_true)
  moreover have "detect_type u (TypeDetector sw) (str ''-'') = Inr (Some ''number'')"
    by (rule first_test_number) (simp_all add: not_empty_or_url is_number_true)
  moreover have "detect_type u (TypeDetector sw) (str ''.'') = Inr (Some ''number'')"
    by (rule first_test_number) (simp_all add: not_empty_or_url is_number_true)
  ultimately show ?thesis by (simp add: is_number_true)
qed

section \<open>The offset patterns\<close>

lemma HHMM_form: "matches u pat_time_HHMM s = hour_minute_form s"
proof (cases s)
  case Nil
  then show ?thesis by (simp add: eval_defs pat_time_HHMM_def hour_minute_form_def)
next
  case s1: (Cons h1 t1)
  show ?thesis
  proof (cases t1)
    case Nil
    then show ?thesis using s1 by (simp add: eval_defs pat_time_HHMM_def hour_minute_form_def)
  next
    case s2: (Cons h2 t2)
    show ?thesis
    proof (cases t2)
      case Nil
      then show ?thesis using s1 s2
        by (simp add: eval_defs pat_time_HHMM_def hour_minute_form_def)
    next
      case s3: (Cons m1 t3)
      show ?thesis
      proof (cases t3)
        case Nil
        then show ?thesis using s1 s2 s3
          by (simp add: eval_defs pat_time_HHMM_def hour_minute_form_def)
      next
        case s4: (Cons m2 t4)
        show ?thesis
        proof (cases t4)
          case Nil
          then show ?thesis using s1 s2 s3 s4
            by (auto simp add: eval_defs pat_time_HHMM_def hour_minute_form_def)
        next
          case (Cons x t5)
          then show ?thesis using s1 s2 s3 s4
            by (simp add: eval_defs pat_time_HHMM_def hour_minute_form_def)
        qed
      qed
    qed
  qed
qed

text \<open>
  C8.  The patterns \<^verbatim>\<open>time_HHMM\<close> and \<^verbatim>\<open>time_HH\<close> of the offset checks accept the same
  strings: each matches a string exactly when it is the four-digit hour-then-minute form
  (hour 00 to 23, minute 00 to 59, no separator).  So the two checks of \<^verbatim>\<open>is_datetime\<close>
  always agree.
\<close>

theorem offset_patterns_agree:
  "matches u pat_time_HHMM s = matches u pat_time_HH s \<and>
   matches u pat_time_HHMM s = hour_minute_form s \<and>
   matches u pat_time_HH s = hour_minute_form s \<and>
   run_regex u (TypeDetector sw) s ''time_HHMM'' = run_regex u (TypeDetector sw) s ''time_HH'' \<and>
   run_regex u (TypeDetector sw) s ''time_HHMM''
     = Inr (hour_minute_form (stripped (TypeDetector sw) s))"
proof -
  have same: "pat_time_HH = pat_time_HHMM"
    by (simp add: pat_time_HH_def pat_time_HHMM_def)
  show ?thesis
    by (simp add: run_regex_fixed same HHMM_form)
qed

theorem offset_patterns_agree_witness:
  "matches ascii_ucd pat_time_HH (str ''0200'') \<and> hour_minute_form (str ''0200'') \<and>
   \<not> matches ascii_ucd pat_time_HH (str ''02'') \<and> \<not> hour_minute_form (str ''2460'')"
proof -
  have "hour_minute_form (str ''0200'')" "\<not> hour_minute_form (str ''02'')"
    "\<not> hour_minute_form (str ''2460'')"
    by (simp_all add: hour_minute_form_def str_def is_ascii_digit_def)
  then show ?thesis
    using offset_patterns_agree [of ascii_ucd "str ''0200''" True]
      offset_patterns_agree [of ascii_ucd "str ''02''" True]
    by simp
qed

section \<open>The score\<close>

lemma is_known_type_total: "\<exists>b. is_known_type u (TypeDetector sw) c = Inr b"
proof -
  obtain e ue n t p cu a na d dt where
    "is_empty u (TypeDetector sw) c = Inr e"
    "is_url_or_email u (TypeDetector sw) c = Inr ue"
    "is_number u (TypeDetector sw) c = Inr n"
    "is_time u (TypeDetector sw) c = Inr t"
    "is_percentage u (TypeDetector sw) c = Inr p"
    "is_currency u (TypeDetector sw) c = Inr cu"
    "is_unicode_alphanum u (TypeDetector sw) c = Inr a"
    "is_nan u (TypeDetector sw) c = Inr na"
    "is_date u (TypeDetector sw) c = Inr d"
    "is_datetime u (TypeDetector sw) c = Inr dt"
    by (rule predicates_Inr)
  then show ?thesis
    by (auto simp: is_known_type_def bind_def detect_type_def type_tests_def)
qed

lemma count_cells_eq:
  "count_cells u (TypeDetector True) cells (t, k) =
     Inr (t + length cells, k + known_cells u cells)"
proof (induction cells arbitrary: t k)
  case Nil
  then show ?case by (simp add: known_cells_def)
next
  case (Cons c cells)
  obtain b where b: "is_known_type u (TypeDetector True) c = Inr b"
    using is_known_type_total by blast
  show ?case
    using Cons [of "t + 1" "k + (if b then 1 else 0)"] b
    by (simp add: known_cells_def)
qed

lemma type_score_eq:
  "type_score u parse_data data dialect eps =
     Inr (if length (concat (parse_data data dialect)) = 0 then eps
          else max eps (real (known_cells u (concat (parse_data data dialect)))
                        / real (length (concat (parse_data data dialect)))))"
  unfolding type_score_def count_cells_eq Let_def by simp

lemma known_le_total: "known_cells u cells \<le> length cells"
  by (simp add: known_cells_def)

lemma empty_cell_known: "is_known_type u (TypeDetector True) [] = Inr True"
  by (simp add: is_known_type_def bind_def detect_type_def type_tests_def is_empty_eq strip_defs)

lemma all_empty_known: "\<forall>c\<in>set cells. c = [] \<Longrightarrow> known_cells u cells = length cells"
  by (induction cells) (simp_all add: known_cells_def empty_cell_known)

text \<open>
  C4, with the bound on \<open>eps\<close> made explicit.  \<^verbatim>\<open>type_score\<close> returns \<open>eps\<close> when the parser yields no cell, and
  otherwise the larger of \<open>eps\<close> and the share of cells of a known type.  When \<open>eps\<close> is
  positive and at most 1, the score lies between \<open>eps\<close> and 1, and a table with at least
  one cell whose cells are all empty scores 1.
\<close>

theorem type_score_range:
  "type_score u parse_data data dialect eps =
     Inr (if length (concat (parse_data data dialect)) = 0 then eps
          else max eps (real (known_cells u (concat (parse_data data dialect)))
                        / real (length (concat (parse_data data dialect))))) \<and>
   (0 < eps \<and> eps \<le> 1 \<longrightarrow>
      (\<exists>r. type_score u parse_data data dialect eps = Inr r \<and> eps \<le> r \<and> r \<le> 1)) \<and>
   (0 < eps \<and> eps \<le> 1 \<and> length (concat (parse_data data dialect)) \<noteq> 0 \<and>
    (\<forall>c\<in>set (concat (parse_data data dialect)). c = []) \<longrightarrow>
      type_score u parse_data data dialect eps = Inr 1)"
proof -
  define cells where "cells = concat (parse_data data dialect)"
  define ratio where "ratio = real (known_cells u cells) / real (length cells)"
  have eq: "type_score u parse_data data dialect eps =
      Inr (if length cells = 0 then eps else max eps ratio)"
    unfolding cells_def ratio_def by (rule type_score_eq)
  have le: "ratio \<le> 1"
    unfolding ratio_def using known_le_total [of u cells] by (simp add: divide_le_eq_1)
  have one: "ratio = 1" if "length cells \<noteq> 0" and "\<forall>c\<in>set cells. c = []"
    unfolding ratio_def using that all_empty_known [of cells u] by simp
  have range: "\<exists>r. type_score u parse_data data dialect eps = Inr r \<and> eps \<le> r \<and> r \<le> 1"
    if "eps \<le> 1"
    unfolding eq using le that by (cases "length cells = 0") (simp_all add: max_def)
  have full: "type_score u parse_data data dialect eps = Inr 1"
    if "eps \<le> 1" and "length cells \<noteq> 0" and "\<forall>c\<in>set cells. c = []"
    unfolding eq using one [OF that(2,3)] that(1,2) by (simp add: max_def)
  show ?thesis
    using eq range full unfolding cells_def ratio_def by blast
qed

theorem type_score_range_witness:
  "(0::real) < 1 / 2 \<and> (1::real) / 2 \<le> 1 \<and>
   concat (one_empty_cell () ()) = [[]] \<and>
   type_score ascii_ucd one_empty_cell () () (1 / 2) = Inr 1 \<and>
   (\<exists>r. type_score ascii_ucd no_rows () () (1 / 2) = Inr r \<and> 1 / 2 \<le> r \<and> r \<le> 1)"
proof -
  have h: "(0::real) < 1 / 2 \<and> (1::real) / 2 \<le> 1"
    by simp
  have e: "concat (one_empty_cell () ()) = [[]]"
    by (simp add: one_empty_cell_def)
  have c: "length (concat (one_empty_cell () ())) \<noteq> 0 \<and>
    (\<forall>c\<in>set (concat (one_empty_cell () ())). c = [])"
    unfolding e by simp
  show ?thesis
    using type_score_range [of ascii_ucd one_empty_cell "()" "()" "1 / 2"]
      type_score_range [of ascii_ucd no_rows "()" "()" "1 / 2"] h c e
    by blast
qed

text \<open>
  C4 without that bound fails: with \<open>eps = 2\<close> a table of one empty cell scores 2, above 1; and a
  table without cells, all of whose cells are empty, scores \<open>eps\<close> and not 1.
\<close>

theorem type_score_above_one:
  "type_score ascii_ucd one_empty_cell () () 2 = Inr 2 \<and> \<not> (2::real) \<le> 1 \<and>
   type_score ascii_ucd no_rows () () (1 / 2) = Inr (1 / 2) \<and> (1::real) / 2 \<noteq> 1"
  by (simp add: type_score_eq one_empty_cell_def no_rows_def known_cells_def empty_cell_known)

section \<open>The whitespace strip\<close>

lemma number_patterns_nonempty:
  "\<not> matches u pat_number_1 []" "\<not> matches u pat_number_2 []" "\<not> matches u pat_number_3 []"
  by (simp_all add: eval_defs number_defs)

lemma stripped_True: "stripped (TypeDetector True) c = strip 32 c"
  by (simp add: stripped_def TypeDetector_def)

lemma strip_Nil: "strip k [] = []"
  by (simp add: strip_def lstrip_def rstrip_def)

lemma is_number_strip:
  "is_number u (TypeDetector True) (strip 32 c) = is_number u (TypeDetector True) c"
  by (cases "c = []")
    (auto simp: is_number_eq stripped_True strip_idem strip_Nil number_patterns_nonempty)

lemma strip_invariant:
  "is_empty u (TypeDetector True) (strip 32 c) = is_empty u (TypeDetector True) c"
  "is_url_or_email u (TypeDetector True) (strip 32 c) = is_url_or_email u (TypeDetector True) c"
  "is_number u (TypeDetector True) (strip 32 c) = is_number u (TypeDetector True) c"
  "is_time u (TypeDetector True) (strip 32 c) = is_time u (TypeDetector True) c"
  "is_percentage u (TypeDetector True) (strip 32 c) = is_percentage u (TypeDetector True) c"
  "is_currency u (TypeDetector True) (strip 32 c) = is_currency u (TypeDetector True) c"
  "is_unicode_alphanum u (TypeDetector True) (strip 32 c)
     = is_unicode_alphanum u (TypeDetector True) c"
  "is_nan u (TypeDetector True) (strip 32 c) = is_nan u (TypeDetector True) c"
  "is_date u (TypeDetector True) (strip 32 c) = is_date u (TypeDetector True) c"
  by (simp_all add: is_empty_eq is_url_or_email_eq is_number_strip is_time_eq is_percentage_eq
      is_currency_eq is_unicode_alphanum_eq is_nan_eq is_date_eq stripped_True strip_idem)

text \<open>
  With the flag set, the nine predicates other than \<^verbatim>\<open>is_datetime\<close> give the same answer
  for a cell and for the cell without its leading and trailing spaces.
\<close>

theorem strip_invariant_predicates:
  "is_empty u (TypeDetector True) (strip 32 c) = is_empty u (TypeDetector True) c \<and>
   is_url_or_email u (TypeDetector True) (strip 32 c)
     = is_url_or_email u (TypeDetector True) c \<and>
   is_number u (TypeDetector True) (strip 32 c) = is_number u (TypeDetector True) c \<and>
   is_time u (TypeDetector True) (strip 32 c) = is_time u (TypeDetector True) c \<and>
   is_percentage u (TypeDetector True) (strip 32 c) = is_percentage u (TypeDetector True) c \<and>
   is_currency u (TypeDetector True) (strip 32 c) = is_currency u (TypeDetector True) c \<and>
   is_unicode_alphanum u (TypeDetector True) (strip 32 c)
     = is_unicode_alphanum u (TypeDetector True) c \<and>
   is_nan u (TypeDetector True) (strip 32 c) = is_nan u (TypeDetector True) c \<and>
   is_date u (TypeDetector True) (strip 32 c) = is_date u (TypeDetector True) c"
  by (simp add: strip_invariant)

lemma padded_split:
  "split (str '' 2023-01-01T12:30:00'') 32 = [[], str ''2023-01-01T12:30:00'']"
  "split (str ''2023-01-01T12:30:00'') 84 = [str ''2023-01-01'', str ''12:30:00'']"
  "strip 32 (str '' 2023-01-01T12:30:00'') = str ''2023-01-01T12:30:00''"
  by (simp_all add: str_def strip_def lstrip_def rstrip_def)

text \<open>
  C6 at the cell \<^verbatim>\<open>" 2023-01-01T12:30:00"\<close> with the flag set.  \<^verbatim>\<open>is_datetime\<close> looks for the
  space in the cell as it is, splits there, and answers false; on the stripped cell it
  answers true.  No other predicate accepts the padded cell, so \<^verbatim>\<open>detect_type\<close> gives it the
  unknown label.
\<close>

theorem datetime_ignores_strip:
  "is_datetime u (TypeDetector True) (str '' 2023-01-01T12:30:00'') = Inr False \<and>
   is_datetime u (TypeDetector True) (strip 32 (str '' 2023-01-01T12:30:00'')) = Inr True \<and>
   detect_type u (TypeDetector True) (str '' 2023-01-01T12:30:00'') = Inr None"
proof -
  have sp: "32 \<in> set (str '' 2023-01-01T12:30:00'')" by (simp add: str_def)
  have d0: "is_date u (TypeDetector True) [] = Inr False"
    by (simp add: is_date_eq strip_defs eval_defs date_defs date_patterns_def first_loop_def
        second_loop_def)
  have a: "is_datetime u (TypeDetector True) (str '' 2023-01-01T12:30:00'') = Inr False"
    by (simp add: is_datetime_space [OF sp] padded_split d0)
  have t: "32 \<notin> set (str ''2023-01-01T12:30:00'')" "84 \<in> set (str ''2023-01-01T12:30:00'')"
    by (simp_all add: str_def)
  have b: "is_datetime u (TypeDetector True) (strip 32 (str '' 2023-01-01T12:30:00'')) = Inr True"
    by (simp add: padded_split is_datetime_T [OF t] is_date_iso is_time_examples)
  have s: "stripped (TypeDetector True) (str '' 2023-01-01T12:30:00'') = str ''2023-01-01T12:30:00''"
    by (simp add: stripped_True padded_split)
  have others:
    "is_empty u (TypeDetector True) (str '' 2023-01-01T12:30:00'') = Inr False"
    "is_url_or_email u (TypeDetector True) (str '' 2023-01-01T12:30:00'') = Inr False"
    "is_number u (TypeDetector True) (str '' 2023-01-01T12:30:00'') = Inr False"
    "is_time u (TypeDetector True) (str '' 2023-01-01T12:30:00'') = Inr False"
    "is_percentage u (TypeDetector True) (str '' 2023-01-01T12:30:00'') = Inr False"
    "is_currency u (TypeDetector True) (str '' 2023-01-01T12:30:00'') = Inr False"
    "is_unicode_alphanum u (TypeDetector True) (str '' 2023-01-01T12:30:00'') = Inr False"
    "is_nan u (TypeDetector True) (str '' 2023-01-01T12:30:00'') = Inr False"
    "is_date u (TypeDetector True) (str '' 2023-01-01T12:30:00'') = Inr False"
    unfolding is_empty_eq is_url_or_email_eq is_number_eq is_time_eq is_percentage_eq
      is_currency_eq is_unicode_alphanum_eq is_nan_eq is_date_eq s
    by (simp_all add: eval_defs number_defs time_defs date_defs pat_url_def pat_email_def
      pat_currency_def pat_unicode_alphanum_def lower_def endswith_def
      date_patterns_def first_loop_def second_loop_def)
  show ?thesis
    using a b others by (simp add: detect_type_def type_tests_def)
qed

end
